theory Spec2Isabelle
  imports Complex_Main "HOL-Library.Word" "HOL-Library.AList" "HOL-Library.Char_ord"
    "HOL-Library.List_Lexorder" "HOL-Library.Log_Nat" "HOL-Library.Multiset"
begin

section \<open>Data model\<close>

text \<open>
  The metric store of \<^verbatim>\<open>pkg/provider/metric_store.go\<close> and the collectors of package
  \<^verbatim>\<open>collector\<close> are embedded as functions on values.

  \<^item> A Go \<^verbatim>\<open>map[K]V\<close> is an association list \<open>('k \<times> 'v) list\<close> whose keys are
    distinct. Reading \<^verbatim>\<open>m[k]\<close> is \<open>map_of m k\<close>, the assignment \<^verbatim>\<open>m[k] = v\<close> is
    \<open>AList.update k v m\<close>, \<^verbatim>\<open>len(m)\<close> is \<open>length m\<close>. The order of the list stands
    for the order in which a \<^verbatim>\<open>range\<close> loop happens to visit the map, which Go
    leaves unspecified; statements that quantify over all stores cover every order.
  \<^item> Go maps are references. Every inner map of the store is created by a map literal
    of its own inside \<^verbatim>\<open>insertCustomMetric\<close> or \<^verbatim>\<open>insertExternalMetric\<close>, so no two
    paths of the store share a map, and writing through a looked-up inner map is the
    update of the nested value at that path.
  \<^item> \<^verbatim>\<open>time.Time\<close> is an integer count of nanoseconds, \<^verbatim>\<open>time.Now()\<close> is an
    argument of the operation that reads the clock.
  \<^item> A \<^verbatim>\<open>resource.Quantity\<close> is the signed 64-bit number of milli-units it holds
    (a word read with \<open>sint\<close>): what
    \<^verbatim>\<open>MilliValue()\<close> reads and \<^verbatim>\<open>NewMilliQuantity\<close> builds.
  \<^item> A panic of the Go runtime is a value: an operation returns \<open>Inl\<close> of the panic and
    of the store as the panic leaves it, or \<open>Inr\<close> of the store it returns normally.
\<close>

type_synonym time = int

type_synonym Duration = int

type_synonym int64 = "64 word"

type_synonym int32 = "32 word"

type_synonym Quantity = int64

type_synonym labels = "(string \<times> string) list"

definition NewQuantity :: "int64 \<Rightarrow> Quantity" where
  "NewQuantity v = v * 1000"


definition MilliValue :: "Quantity \<Rightarrow> int64" where
  "MilliValue q = q"

definition Minute :: Duration where
  "Minute = 60 * 1000000000"

text \<open>\<^verbatim>\<open>autoscalingv2beta1.MetricSourceType\<close> with its four constants.\<close>

datatype MetricSourceType =
  ObjectMetricSourceType | PodsMetricSourceType | ResourceMetricSourceType
  | ExternalMetricSourceType

record GroupResource =
  Group :: string
  Resource :: string

record ObjectReference =
  Kind :: string
  Namespace :: string
  Name :: string

text \<open>\<^verbatim>\<open>custom_metrics.MetricValue\<close> and \<^verbatim>\<open>external_metrics.ExternalMetricValue\<close>.\<close>

record MetricValue =
  DescribedObject :: ObjectReference
  MetricName :: string
  Timestamp :: time
  Value :: Quantity

record ExternalMetricValue =
  ext_MetricName :: string
  MetricLabels :: labels
  ext_Timestamp :: time
  ext_Value :: Quantity

text \<open>
  \<^verbatim>\<open>collector.CollectedMetric\<close>: the fields that \<^verbatim>\<open>Insert\<close> and the collectors read
  and write.
\<close>

record CollectedMetric =
  Type :: MetricSourceType
  Custom :: MetricValue
  External :: ExternalMetricValue
  Labels :: labels

record customMetricsStoredMetric =
  cm_Value :: MetricValue
  cm_Labels :: labels
  cm_TTL :: time

record externalMetricsStoredMetric =
  em_Value :: ExternalMetricValue
  em_TTL :: time

type_synonym resources = "(string \<times> customMetricsStoredMetric) list"

type_synonym namespaces = "(string \<times> resources) list"

type_synonym groups = "(GroupResource \<times> namespaces) list"

record MetricStore =
  customMetricsStore :: "(string \<times> groups) list"
  externalMetricsStore :: "(string \<times> (string \<times> externalMetricsStoredMetric) list) list"

datatype panic = AssignmentToEntryInNilMap

type_synonym 'a outcome = "(panic \<times> 'a) + 'a"

section \<open>The metric store\<close>

definition NewMetricStore :: MetricStore where
  "NewMetricStore = \<lparr>customMetricsStore = [], externalMetricsStore = []\<rparr>"

text \<open>The \<^verbatim>\<open>switch value.DescribedObject.Kind\<close> of \<^verbatim>\<open>insertCustomMetric\<close>.\<close>

definition groupResourceOf :: "string \<Rightarrow> GroupResource" where
  "groupResourceOf kind =
     (if kind = ''Pod'' then \<lparr>Group = '''', Resource = ''pods''\<rparr>
      else if kind = ''Ingress'' then \<lparr>Group = ''extensions'', Resource = ''ingresses''\<rparr>
      else \<lparr>Group = '''', Resource = ''''\<rparr>)"

text \<open>
  \<^verbatim>\<open>insertCustomMetric\<close>. When the metric name is known and the group-resource is not,
  the new group is written to \<^verbatim>\<open>metrics\<close> and control falls through with \<^verbatim>\<open>group\<close>
  still the nil map; the read \<^verbatim>\<open>group[namespace]\<close> of a nil map yields not-found, and
  the assignment \<^verbatim>\<open>group[namespace] = ...\<close> to the nil map panics. When the group is
  known and the namespace is not, the new namespace is written to \<^verbatim>\<open>group\<close> and
  \<^verbatim>\<open>namespace[name] = metric\<close> assigns to the nil map \<^verbatim>\<open>namespace\<close> and panics.
  The variable \<^verbatim>\<open>group\<close> of the source is \<open>grp\<close> here.
\<close>

definition insertCustomMetric ::
  "time \<Rightarrow> MetricValue \<Rightarrow> labels \<Rightarrow> MetricStore \<Rightarrow> MetricStore outcome" where
  "insertCustomMetric now v lbls s =
     (let groupResource = groupResourceOf (Kind (DescribedObject v));
          ns = Namespace (DescribedObject v);
          name = Name (DescribedObject v);
          metric = \<lparr>cm_Value = v, cm_Labels = lbls, cm_TTL = now + 15 * Minute\<rparr>
      in case map_of (customMetricsStore s) (MetricName v) of
           None \<Rightarrow>
             Inr (s\<lparr>customMetricsStore :=
                    AList.update (MetricName v) [(groupResource, [(ns, [(name, metric)])])]
                      (customMetricsStore s)\<rparr>)
         | Some metrics \<Rightarrow>
             (case map_of metrics groupResource of
                None \<Rightarrow>
                  Inl (AssignmentToEntryInNilMap,
                       s\<lparr>customMetricsStore :=
                           AList.update (MetricName v)
                             (AList.update groupResource [(ns, [(name, metric)])] metrics)
                             (customMetricsStore s)\<rparr>)
              | Some grp \<Rightarrow>
                  (case map_of grp ns of
                     None \<Rightarrow>
                       Inl (AssignmentToEntryInNilMap,
                            s\<lparr>customMetricsStore :=
                                AList.update (MetricName v)
                                  (AList.update groupResource
                                     (AList.update ns [(name, metric)] grp) metrics)
                                  (customMetricsStore s)\<rparr>)
                   | Some namespace \<Rightarrow>
                       Inr (s\<lparr>customMetricsStore :=
                              AList.update (MetricName v)
                                (AList.update groupResource
                                   (AList.update ns (AList.update name metric namespace) grp)
                                   metrics)
                                (customMetricsStore s)\<rparr>))))"

text \<open>
  \<^verbatim>\<open>hashLabelMap\<close>: one \<^verbatim>\<open>key=value\<close> string per label, sorted by \<^verbatim>\<open>sort.Strings\<close>
  (bytewise lexicographic order, the order of \<open>string\<close> here) and joined with commas.
\<close>

fun Join :: "string list \<Rightarrow> string \<Rightarrow> string" where
  "Join [] sep = []"
| "Join [x] sep = x"
| "Join (x # y # ys) sep = x @ sep @ Join (y # ys) sep"

definition hashLabelMap :: "labels \<Rightarrow> string" where
  "hashLabelMap lbls = Join (sort (map (\<lambda>(k, v). k @ ''='' @ v) lbls)) '',''"

definition insertExternalMetric ::
  "time \<Rightarrow> ExternalMetricValue \<Rightarrow> MetricStore \<Rightarrow> MetricStore" where
  "insertExternalMetric now metric s =
     (let storedMetric = \<lparr>em_Value = metric, em_TTL = now + 15 * Minute\<rparr>;
          labelsKey = hashLabelMap (MetricLabels metric)
      in case map_of (externalMetricsStore s) (ext_MetricName metric) of
           Some metrics \<Rightarrow>
             s\<lparr>externalMetricsStore :=
                 AList.update (ext_MetricName metric)
                   (AList.update labelsKey storedMetric metrics) (externalMetricsStore s)\<rparr>
         | None \<Rightarrow>
             s\<lparr>externalMetricsStore :=
                 AList.update (ext_MetricName metric) [(labelsKey, storedMetric)]
                   (externalMetricsStore s)\<rparr>)"

text \<open>\<^verbatim>\<open>Insert\<close>: the switch has no default, any other source type stores nothing.\<close>

definition Insert :: "time \<Rightarrow> CollectedMetric \<Rightarrow> MetricStore \<Rightarrow> MetricStore outcome" where
  "Insert now v s =
     (case Type v of
        ObjectMetricSourceType \<Rightarrow> insertCustomMetric now (Custom v) (Labels v) s
      | PodsMetricSourceType \<Rightarrow> insertCustomMetric now (Custom v) (Labels v) s
      | ExternalMetricSourceType \<Rightarrow> Inr (insertExternalMetric now (External v) s)
      | ResourceMetricSourceType \<Rightarrow> Inr s)"

text \<open>
  \<^verbatim>\<open>GetMetricsBySelector\<close>. The selector is the predicate \<^verbatim>\<open>selector.Matches\<close> on label
  sets; \<open>None\<close> is the nil result, \<open>Some items\<close> the list \<^verbatim>\<open>Items\<close> of the returned
  \<^verbatim>\<open>MetricValueList\<close>.
\<close>

definition matchedIn :: "(labels \<Rightarrow> bool) \<Rightarrow> resources \<Rightarrow> MetricValue list" where
  "matchedIn selector metricMap =
     map (\<lambda>(name, metric). cm_Value metric)
       (filter (\<lambda>(name, metric). selector (cm_Labels metric)) metricMap)"

definition GetMetricsBySelector ::
  "MetricStore \<Rightarrow> string \<Rightarrow> GroupResource \<Rightarrow> string \<Rightarrow> (labels \<Rightarrow> bool)
     \<Rightarrow> MetricValue list option" where
  "GetMetricsBySelector s metricName groupResource namespace selector =
     (case map_of (customMetricsStore s) metricName of
        None \<Rightarrow> None
      | Some metrics \<Rightarrow>
          (case map_of metrics groupResource of
             None \<Rightarrow> None
           | Some grp \<Rightarrow>
               if namespace = '''' then
                 Some (concat (map (\<lambda>(ns, metricMap). matchedIn selector metricMap) grp))
               else
                 (case map_of grp namespace of
                    Some metricMap \<Rightarrow> Some (matchedIn selector metricMap)
                  | None \<Rightarrow> Some [])))"

text \<open>
  \<^verbatim>\<open>GetMetricsByName\<close>. With the empty namespace the namespaces of the group are visited
  in iteration order and the first one that holds the name answers.
\<close>

fun firstNamed :: "string \<Rightarrow> namespaces \<Rightarrow> MetricValue option" where
  "firstNamed name [] = None"
| "firstNamed name ((ns, metricMap) # rest) =
     (case map_of metricMap name of
        Some metric \<Rightarrow> Some (cm_Value metric)
      | None \<Rightarrow> firstNamed name rest)"

definition GetMetricsByName ::
  "MetricStore \<Rightarrow> string \<Rightarrow> GroupResource \<Rightarrow> string \<Rightarrow> string \<Rightarrow> MetricValue option" where
  "GetMetricsByName s metricName groupResource namespace name =
     (case map_of (customMetricsStore s) metricName of
        None \<Rightarrow> None
      | Some metrics \<Rightarrow>
          (case map_of metrics groupResource of
             None \<Rightarrow> None
           | Some grp \<Rightarrow>
               if namespace = '''' then firstNamed name grp
               else
                 (case map_of grp namespace of
                    Some metricMap \<Rightarrow>
                      (case map_of metricMap name of
                         Some metric \<Rightarrow> Some (cm_Value metric)
                       | None \<Rightarrow> None)
                  | None \<Rightarrow> None)))"

text \<open>
  \<^verbatim>\<open>RemoveExpired\<close>. The source reads \<^verbatim>\<open>time.Now()\<close> anew for every entry it examines;
  the clock arguments give the reading taken at each entry, named by the path of the
  entry. Deleting the entry under the cursor of a \<^verbatim>\<open>range\<close> loop is allowed in Go, and
  every entry is visited once; a container is deleted from its parent when the sweep
  leaves it with length 0.
\<close>

fun expireResources :: "(string \<Rightarrow> time) \<Rightarrow> resources \<Rightarrow> resources" where
  "expireResources now [] = []"
| "expireResources now ((resource, metric) # rest) =
     (if cm_TTL metric < now resource then expireResources now rest
      else (resource, metric) # expireResources now rest)"

fun expireNamespaces :: "(string \<Rightarrow> string \<Rightarrow> time) \<Rightarrow> namespaces \<Rightarrow> namespaces" where
  "expireNamespaces now [] = []"
| "expireNamespaces now ((namespace, resources) # rest) =
     (let resources' = expireResources (now namespace) resources
      in if length resources' = 0 then expireNamespaces now rest
         else (namespace, resources') # expireNamespaces now rest)"

fun expireGroups ::
  "(GroupResource \<Rightarrow> string \<Rightarrow> string \<Rightarrow> time) \<Rightarrow> groups \<Rightarrow> groups" where
  "expireGroups now [] = []"
| "expireGroups now ((grp, namespaces) # rest) =
     (let namespaces' = expireNamespaces (now grp) namespaces
      in if length namespaces' = 0 then expireGroups now rest
         else (grp, namespaces') # expireGroups now rest)"

fun expireCustom ::
  "(string \<Rightarrow> GroupResource \<Rightarrow> string \<Rightarrow> string \<Rightarrow> time)
     \<Rightarrow> (string \<times> groups) list \<Rightarrow> (string \<times> groups) list" where
  "expireCustom now [] = []"
| "expireCustom now ((metricName, groups) # rest) =
     (let groups' = expireGroups (now metricName) groups
      in if length groups' = 0 then expireCustom now rest
         else (metricName, groups') # expireCustom now rest)"

fun expireLabelled ::
  "(string \<Rightarrow> time) \<Rightarrow> (string \<times> externalMetricsStoredMetric) list
     \<Rightarrow> (string \<times> externalMetricsStoredMetric) list" where
  "expireLabelled now [] = []"
| "expireLabelled now ((k, metric) # rest) =
     (if em_TTL metric < now k then expireLabelled now rest
      else (k, metric) # expireLabelled now rest)"

fun expireExternal ::
  "(string \<Rightarrow> string \<Rightarrow> time)
     \<Rightarrow> (string \<times> (string \<times> externalMetricsStoredMetric) list) list
     \<Rightarrow> (string \<times> (string \<times> externalMetricsStoredMetric) list) list" where
  "expireExternal now [] = []"
| "expireExternal now ((metricName, metrics) # rest) =
     (let metrics' = expireLabelled (now metricName) metrics
      in if length metrics' = 0 then expireExternal now rest
         else (metricName, metrics') # expireExternal now rest)"

definition RemoveExpired ::
  "(string \<Rightarrow> GroupResource \<Rightarrow> string \<Rightarrow> string \<Rightarrow> time) \<Rightarrow> (string \<Rightarrow> string \<Rightarrow> time)
     \<Rightarrow> MetricStore \<Rightarrow> MetricStore" where
  "RemoveExpired nowCustom nowExternal s =
     \<lparr>customMetricsStore = expireCustom nowCustom (customMetricsStore s),
      externalMetricsStore = expireExternal nowExternal (externalMetricsStore s)\<rparr>"

section \<open>Collectors\<close>

text \<open>
  A Go \<^verbatim>\<open>error\<close> is a value of \<open>error\<close>: \<open>Errorf\<close> carries the message that
  \<^verbatim>\<open>fmt.Errorf\<close> formats; errors of the cluster API and of a delegate are values of
  the same type. A function that returns \<^verbatim>\<open>(T, error)\<close> returns \<open>error + T\<close>.
\<close>

datatype error = Errorf string




text \<open>
  \<^verbatim>\<open>collector.MetricConfig\<close> and the part of the \<^verbatim>\<open>HorizontalPodAutoscaler\<close> that the
  collectors read. The declarations are outside the files at hand; the fields are the
  ones the source uses.
\<close>

record MetricConfig =
  cfg_Name :: string
  cfg_Type :: MetricSourceType
  cfg_ObjectReference :: ObjectReference
  cfg_Config :: labels
  cfg_Labels :: labels
  PerReplica :: bool

record HorizontalPodAutoscaler =
  hpa_Namespace :: string
  ScaleTargetRef_Kind :: string
  ScaleTargetRef_Name :: string

subsection \<open>The ZMON collector\<close>

definition ZMONCheckMetric :: string where
  "ZMONCheckMetric = ''zmon-check''"

definition zmonCheckIDLabelKey :: string where
  "zmonCheckIDLabelKey = ''check-id''"

definition zmonQueryLabelKey :: string where
  "zmonQueryLabelKey = ''query''"

text \<open>The endpoint is the URL as text, the token source the name of its token.\<close>

record ZMONCollector =
  zmon_endpoint :: string
  zmon_tokenSource :: string
  zmon_interval :: Duration
  checkID :: string
  query :: string
  zmon_labels :: labels
  zmon_metricName :: string
  zmon_metricType :: MetricSourceType

definition NewZMONCollector ::
  "string \<Rightarrow> string \<Rightarrow> MetricConfig \<Rightarrow> Duration \<Rightarrow> error + ZMONCollector" where
  "NewZMONCollector endpoint tokenSource config interval =
     (case map_of (cfg_Labels config) zmonCheckIDLabelKey of
        None \<Rightarrow> Inl (Errorf ''ZMON check ID not specified on metric'')
      | Some checkID' \<Rightarrow>
          (case map_of (cfg_Labels config) zmonQueryLabelKey of
             None \<Rightarrow> Inl (Errorf ''ZMON query not specified on metric'')
           | Some query' \<Rightarrow>
               Inr \<lparr>zmon_endpoint = endpoint, zmon_tokenSource = tokenSource,
                    zmon_interval = interval, checkID = checkID', query = query',
                    zmon_labels = cfg_Labels config, zmon_metricName = cfg_Name config,
                    zmon_metricType = cfg_Type config\<rparr>))"

definition ZMONCollectorPlugin_NewCollector ::
  "string \<Rightarrow> string \<Rightarrow> HorizontalPodAutoscaler \<Rightarrow> MetricConfig \<Rightarrow> Duration
     \<Rightarrow> error + ZMONCollector" where
  "ZMONCollectorPlugin_NewCollector endpoint tokenSource hpa config interval =
     (if cfg_Name config = ZMONCheckMetric
      then NewZMONCollector endpoint tokenSource config interval
      else Inl (Errorf (''metric '' @ [CHR 0x27] @ cfg_Name config @ [CHR 0x27]
                          @ '' not supported'')))"

text \<open>
  \<^verbatim>\<open>ZMONCollector.GetMetrics\<close>. The fields of the returned \<^verbatim>\<open>CollectedMetric\<close> that the
  literal leaves out hold Go's zero values.
\<close>

definition zeroMetricValue :: MetricValue where
  "zeroMetricValue =
     \<lparr>DescribedObject = \<lparr>Kind = '''', Namespace = '''', Name = ''''\<rparr>,
      MetricName = '''', Timestamp = 0, Value = 0\<rparr>"

definition ZMONCollector_GetMetrics :: "time \<Rightarrow> ZMONCollector \<Rightarrow> error + CollectedMetric list" where
  "ZMONCollector_GetMetrics now c =
     (let metricValue =
            \<lparr>Type = zmon_metricType c,
             Custom = zeroMetricValue,
             External = \<lparr>ext_MetricName = zmon_metricName c, MetricLabels = zmon_labels c,
                         ext_Timestamp = now, ext_Value = NewQuantity 0\<rparr>,
             Labels = []\<rparr>
      in Inr [metricValue])"

subsection \<open>The skipper collector\<close>

text \<open>
  What the skipper collector reaches through its interfaces is an argument:
  the cluster client (the ingress by namespace and name, the ready replicas of a
  deployment and of a stateful set), the delegate plugin's \<^verbatim>\<open>NewCollector\<close>, and the
  method \<^verbatim>\<open>GetMetrics\<close> of a collector. \<open>'c\<close> is the type of the collectors that the
  delegate plugin builds.
\<close>

record IngressRule =
  Host :: string

record Ingress =
  Rules :: "IngressRule list"

datatype 'c Collector = Plugged 'c | MaxCollector Duration "'c list"

record 'c world =
  getIngress :: "string \<Rightarrow> string \<Rightarrow> error + Ingress"
  getDeploymentReadyReplicas :: "string \<Rightarrow> string \<Rightarrow> error + int32"
  getStatefulSetReadyReplicas :: "string \<Rightarrow> string \<Rightarrow> error + int32"
  pluginNewCollector :: "HorizontalPodAutoscaler \<Rightarrow> MetricConfig \<Rightarrow> Duration \<Rightarrow> error + 'c"
  collectorGetMetrics :: "'c Collector \<Rightarrow> error + CollectedMetric list"

record SkipperCollector =
  skipper_metricName :: string
  objectReference :: ObjectReference
  hpa :: HorizontalPodAutoscaler
  skipper_interval :: Duration
  config :: MetricConfig

definition rpsMetricName :: string where
  "rpsMetricName = ''requests-per-second''"

text \<open>\<^verbatim>\<open>fmt.Sprintf(rpsQuery, host)\<close>; the character 0x22 is the double quote.\<close>

definition rpsQuery :: "string \<Rightarrow> string" where
  "rpsQuery host =
     ''scalar(sum(rate(skipper_serve_host_duration_seconds_count{host='' @ [CHR 0x22] @ host
       @ [CHR 0x22] @ ''}[1m])))''"

text \<open>\<^verbatim>\<open>strings.Replace(host, ".", "_", -1)\<close>.\<close>

definition replaceDots :: "string \<Rightarrow> string" where
  "replaceDots host = map (\<lambda>ch. if ch = CHR ''.'' then CHR ''_'' else ch) host"

definition NewSkipperCollector ::
  "HorizontalPodAutoscaler \<Rightarrow> MetricConfig \<Rightarrow> Duration \<Rightarrow> error + SkipperCollector" where
  "NewSkipperCollector h cfg interval =
     Inr \<lparr>skipper_metricName = cfg_Name cfg, objectReference = cfg_ObjectReference cfg,
          hpa = h, skipper_interval = interval, config = cfg\<rparr>"

definition NewMaxCollector :: "Duration \<Rightarrow> 'c list \<Rightarrow> 'c Collector" where
  "NewMaxCollector interval collectors = MaxCollector interval collectors"

text \<open>
  The loop of \<^verbatim>\<open>getCollector\<close> over the rules of the ingress: \<open>cfg\<close> is the local
  \<^verbatim>\<open>config\<close>, overwritten in every round, \<open>collectors\<close> the slice built so far.
\<close>

fun collectorsForRules ::
  "'c world \<Rightarrow> SkipperCollector \<Rightarrow> MetricConfig \<Rightarrow> 'c list \<Rightarrow> IngressRule list
     \<Rightarrow> error + 'c list" where
  "collectorsForRules w c cfg collectors [] = Inr collectors"
| "collectorsForRules w c cfg collectors (rule # rest) =
     (let host = replaceDots (Host rule);
          cfg' = cfg\<lparr>cfg_Config := [(''query'', rpsQuery host)], PerReplica := False\<rparr>
      in case pluginNewCollector w (hpa c) cfg' (skipper_interval c) of
           Inl err \<Rightarrow> Inl err
         | Inr collector \<Rightarrow> collectorsForRules w c cfg' (collectors @ [collector]) rest)"

definition getCollector :: "'c world \<Rightarrow> SkipperCollector \<Rightarrow> error + 'c Collector" where
  "getCollector w c =
     (case getIngress w (Namespace (objectReference c)) (Name (objectReference c)) of
        Inl err \<Rightarrow> Inl err
      | Inr ingress \<Rightarrow>
          (case collectorsForRules w c (config c) [] (Rules ingress) of
             Inl err \<Rightarrow> Inl err
           | Inr collectors \<Rightarrow>
               if length collectors > 1
               then Inr (NewMaxCollector (skipper_interval c) collectors)
               else if length collectors = 1 then Inr (Plugged (collectors ! 0))
               else Inl (Errorf (''no hosts defined on ingress ''
                                   @ Namespace (objectReference c) @ ''/''
                                   @ Name (objectReference c)
                                   @ '', unable to create collector''))))"

definition targetRefReplicas :: "'c world \<Rightarrow> HorizontalPodAutoscaler \<Rightarrow> error + int32" where
  "targetRefReplicas w h =
     (if ScaleTargetRef_Kind h = ''Deployment''
      then getDeploymentReadyReplicas w (hpa_Namespace h) (ScaleTargetRef_Name h)
      else if ScaleTargetRef_Kind h = ''StatefulSet''
      then getStatefulSetReadyReplicas w (hpa_Namespace h) (ScaleTargetRef_Name h)
      else Inr 0)"







subsection \<open>The maximum-of combinator\<close>

text \<open>
  Modelled from the spec: the method \<^verbatim>\<open>GetMetrics\<close> of the collector that
  \<^verbatim>\<open>NewMaxCollector\<close> builds; its file is not among the sources, only the call in
  \<^verbatim>\<open>getCollector\<close> is. In the words of the specification: it holds an ordered list of
  delegate collectors; \<^verbatim>\<open>GetMetrics\<close> invokes every delegate and collects all returned
  values, an error from any delegate propagates immediately, and it returns the single
  value with the largest numeric quantity, the first-encountered maximum in delegate
  order on a tie; it fails if zero delegates were configured or if no delegate returns
  a value. The quantity compared is the custom value's, read in milli-units.
  \<open>get\<close> is the method \<^verbatim>\<open>GetMetrics\<close> of a delegate.
\<close>

definition quantityOf :: "CollectedMetric \<Rightarrow> int" where
  "quantityOf v = sint (MilliValue (Value (Custom v)))"

fun collectAll ::
  "('c \<Rightarrow> error + CollectedMetric list) \<Rightarrow> 'c list \<Rightarrow> error + CollectedMetric list" where
  "collectAll get [] = Inr []"
| "collectAll get (d # ds) =
     (case get d of
        Inl err \<Rightarrow> Inl err
      | Inr vs \<Rightarrow> (case collectAll get ds of Inl err \<Rightarrow> Inl err | Inr ws \<Rightarrow> Inr (vs @ ws)))"

fun firstMaximum :: "CollectedMetric \<Rightarrow> CollectedMetric list \<Rightarrow> CollectedMetric" where
  "firstMaximum best [] = best"
| "firstMaximum best (v # vs) =
     (if quantityOf best < quantityOf v then firstMaximum v vs else firstMaximum best vs)"

definition MaxCollector_GetMetrics ::
  "('c \<Rightarrow> error + CollectedMetric list) \<Rightarrow> 'c list \<Rightarrow> error + CollectedMetric list" where
  "MaxCollector_GetMetrics get delegates =
     (if delegates = [] then Inl (Errorf ''no collectors configured'')
      else case collectAll get delegates of
             Inl err \<Rightarrow> Inl err
           | Inr [] \<Rightarrow> Inl (Errorf ''no metric values returned'')
           | Inr (v # vs) \<Rightarrow> Inr [firstMaximum v vs])"

section \<open>Vocabulary of the properties\<close>

text \<open>
  The identity of a custom metric: metric name, group-resource, namespace and object
  name, the path under which \<^verbatim>\<open>insertCustomMetric\<close> stores it.
\<close>

type_synonym identity = "string \<times> GroupResource \<times> string \<times> string"

definition identityOf :: "MetricValue \<Rightarrow> identity" where
  "identityOf v =
     (MetricName v, groupResourceOf (Kind (DescribedObject v)),
      Namespace (DescribedObject v), Name (DescribedObject v))"

text \<open>The stored metric at a path of the custom store, and at a path of the external store.\<close>

definition lookupEntry :: "MetricStore \<Rightarrow> identity \<Rightarrow> customMetricsStoredMetric option" where
  "lookupEntry s ident =
     (case ident of (metricName, groupResource, namespace, name) \<Rightarrow>
        (case map_of (customMetricsStore s) metricName of
           None \<Rightarrow> None
         | Some metrics \<Rightarrow>
             (case map_of metrics groupResource of
                None \<Rightarrow> None
              | Some grp \<Rightarrow>
                  (case map_of grp namespace of
                     None \<Rightarrow> None
                   | Some metricMap \<Rightarrow> map_of metricMap name))))"


text \<open>All stored entries with their paths, in iteration order, level by level.\<close>

definition resourceEntries ::
  "string \<Rightarrow> GroupResource \<Rightarrow> string \<Rightarrow> resources
     \<Rightarrow> (identity \<times> customMetricsStoredMetric) list" where
  "resourceEntries metricName grp namespace resources =
     map (\<lambda>(resource, metric). ((metricName, grp, namespace, resource), metric)) resources"

definition namespaceEntries ::
  "string \<Rightarrow> GroupResource \<Rightarrow> namespaces \<Rightarrow> (identity \<times> customMetricsStoredMetric) list" where
  "namespaceEntries metricName grp namespaces =
     concat (map (\<lambda>(namespace, resources). resourceEntries metricName grp namespace resources)
               namespaces)"

definition groupEntries :: "string \<Rightarrow> groups \<Rightarrow> (identity \<times> customMetricsStoredMetric) list" where
  "groupEntries metricName groups =
     concat (map (\<lambda>(grp, namespaces). namespaceEntries metricName grp namespaces) groups)"

definition customEntries :: "MetricStore \<Rightarrow> (identity \<times> customMetricsStoredMetric) list" where
  "customEntries s =
     concat (map (\<lambda>(metricName, groups). groupEntries metricName groups) (customMetricsStore s))"

definition externalEntries ::
  "MetricStore \<Rightarrow> ((string \<times> string) \<times> externalMetricsStoredMetric) list" where
  "externalEntries s =
     concat (map (\<lambda>(metricName, metrics). map (\<lambda>(k, metric). ((metricName, k), metric)) metrics)
               (externalMetricsStore s))"

text \<open>No map of the store, at any level, is empty.\<close>

definition noEmptyContainers :: "MetricStore \<Rightarrow> bool" where
  "noEmptyContainers s \<longleftrightarrow>
     list_all (\<lambda>(metricName, groups). groups \<noteq> [] \<and>
        list_all (\<lambda>(grp, namespaces). namespaces \<noteq> [] \<and>
          list_all (\<lambda>(namespace, resources). resources \<noteq> []) namespaces) groups)
       (customMetricsStore s) \<and>
     list_all (\<lambda>(metricName, metrics). metrics \<noteq> []) (externalMetricsStore s)"

text \<open>
  The representation invariant of a Go map: in every association list of the store
  the keys are distinct.
\<close>

definition distinctKeys :: "('k \<times> 'v) list \<Rightarrow> bool" where
  "distinctKeys xs = distinct (map fst xs)"

definition wfNamespaces :: "namespaces \<Rightarrow> bool" where
  "wfNamespaces nss \<longleftrightarrow>
     distinctKeys nss \<and> list_all (\<lambda>(namespace, resources). distinctKeys resources) nss"

definition wfGroups :: "groups \<Rightarrow> bool" where
  "wfGroups gs \<longleftrightarrow> distinctKeys gs \<and> list_all (\<lambda>(grp, namespaces). wfNamespaces namespaces) gs"

definition wellFormed :: "MetricStore \<Rightarrow> bool" where
  "wellFormed s \<longleftrightarrow>
     distinctKeys (customMetricsStore s) \<and>
     list_all (\<lambda>(metricName, groups). wfGroups groups) (customMetricsStore s) \<and>
     distinctKeys (externalMetricsStore s) \<and>
     list_all (\<lambda>(metricName, metrics). distinctKeys metrics) (externalMetricsStore s)"

text \<open>Every group-resource of every metric name holds at most one namespace.\<close>

definition singleNamespaceGroups :: "groups \<Rightarrow> bool" where
  "singleNamespaceGroups gs \<longleftrightarrow> list_all (\<lambda>(grp, namespaces). length namespaces \<le> 1) gs"

definition singleNamespace :: "MetricStore \<Rightarrow> bool" where
  "singleNamespace s \<longleftrightarrow>
     list_all (\<lambda>(metricName, groups). singleNamespaceGroups groups) (customMetricsStore s)"

text \<open>
  The histories of a store: the orchestrator calls \<^verbatim>\<open>Insert\<close> and \<^verbatim>\<open>RemoveExpired\<close>
  one after the other; a panic ends the history.
\<close>

datatype operation =
  DoInsert time CollectedMetric
  | DoRemoveExpired "string \<Rightarrow> GroupResource \<Rightarrow> string \<Rightarrow> string \<Rightarrow> time" "string \<Rightarrow> string \<Rightarrow> time"

fun run :: "operation list \<Rightarrow> MetricStore \<Rightarrow> MetricStore outcome" where
  "run [] s = Inr s"
| "run (DoInsert now v # rest) s =
     (case Insert now v s of Inl p \<Rightarrow> Inl p | Inr s' \<Rightarrow> run rest s')"
| "run (DoRemoveExpired nowCustom nowExternal # rest) s =
     run rest (RemoveExpired nowCustom nowExternal s)"

text \<open>The store that an operation leaves behind, whether it returns or panics.\<close>

definition storeOf :: "MetricStore outcome \<Rightarrow> MetricStore" where
  "storeOf r = (case r of Inl (p, s) \<Rightarrow> s | Inr s \<Rightarrow> s)"

definition isCustom :: "CollectedMetric \<Rightarrow> bool" where
  "isCustom v \<longleftrightarrow> Type v = ObjectMetricSourceType \<or> Type v = PodsMetricSourceType"

text \<open>
  An operation leaves the entry of an identity alone: it is no insert of a custom metric
  with that identity, and no sweep that reads a clock past the entry's expiry \<open>ttl\<close>.
\<close>

fun leavesAlone :: "identity \<Rightarrow> time \<Rightarrow> operation \<Rightarrow> bool" where
  "leavesAlone ident ttl (DoInsert now v) = (\<not> (isCustom v \<and> identityOf (Custom v) = ident))"
| "leavesAlone ident ttl (DoRemoveExpired nowCustom nowExternal) =
     (case ident of (metricName, groupResource, namespace, name) \<Rightarrow>
        \<not> ttl < nowCustom metricName groupResource namespace name)"

text \<open>The metric name and the group-resource are both in the custom store.\<close>

definition knownGroup :: "MetricStore \<Rightarrow> string \<Rightarrow> GroupResource \<Rightarrow> bool" where
  "knownGroup s metricName groupResource =
     (case map_of (customMetricsStore s) metricName of
        None \<Rightarrow> False
      | Some metrics \<Rightarrow> map_of metrics groupResource \<noteq> None)"

text \<open>
  The configuration that the skipper collector hands to the delegate plugin for a host:
  its own configuration with the query for the host, dots replaced by underscores, and
  with per-replica averaging switched off.
\<close>

definition hostConfig :: "SkipperCollector \<Rightarrow> string \<Rightarrow> MetricConfig" where
  "hostConfig c host =
     (config c)\<lparr>cfg_Config := [(''query'', rpsQuery (replaceDots host))], PerReplica := False\<rparr>"

section \<open>Example values\<close>

text \<open>
  Collected metrics as the pod collector and an ingress collector return them, for the
  concrete instances below.
\<close>

definition podMetric :: "string \<Rightarrow> string \<Rightarrow> string \<Rightarrow> int64 \<Rightarrow> labels \<Rightarrow> CollectedMetric" where
  "podMetric metricName ns name q lbls =
     \<lparr>Type = PodsMetricSourceType,
      Custom = \<lparr>DescribedObject = \<lparr>Kind = ''Pod'', Namespace = ns, Name = name\<rparr>,
                MetricName = metricName, Timestamp = 0, Value = q\<rparr>,
      External = \<lparr>ext_MetricName = [], MetricLabels = [], ext_Timestamp = 0, ext_Value = 0\<rparr>,
      Labels = lbls\<rparr>"

definition ingressMetric :: "string \<Rightarrow> string \<Rightarrow> string \<Rightarrow> int64 \<Rightarrow> labels \<Rightarrow> CollectedMetric" where
  "ingressMetric metricName ns name q lbls =
     \<lparr>Type = ObjectMetricSourceType,
      Custom = \<lparr>DescribedObject = \<lparr>Kind = ''Ingress'', Namespace = ns, Name = name\<rparr>,
                MetricName = metricName, Timestamp = 0, Value = q\<rparr>,
      External = \<lparr>ext_MetricName = [], MetricLabels = [], ext_Timestamp = 0, ext_Value = 0\<rparr>,
      Labels = lbls\<rparr>"

definition externalMetric :: "string \<Rightarrow> labels \<Rightarrow> int64 \<Rightarrow> CollectedMetric" where
  "externalMetric metricName lbls q =
     \<lparr>Type = ExternalMetricSourceType,
      Custom = zeroMetricValue,
      External = \<lparr>ext_MetricName = metricName, MetricLabels = lbls, ext_Timestamp = 0,
                  ext_Value = q\<rparr>,
      Labels = []\<rparr>"

text \<open>
  A store with pods of two namespaces under one metric name: \<^verbatim>\<open>pod-a\<close> (label
  \<^verbatim>\<open>app=x\<close>) and \<^verbatim>\<open>pod-b\<close> (label \<^verbatim>\<open>app=y\<close>) in \<^verbatim>\<open>ns1\<close>, \<^verbatim>\<open>pod-c\<close> (label
  \<^verbatim>\<open>app=x\<close>) in \<^verbatim>\<open>ns2\<close>.
\<close>

definition storedPod :: "string \<Rightarrow> string \<Rightarrow> int64 \<Rightarrow> labels \<Rightarrow> customMetricsStoredMetric" where
  "storedPod ns name q lbls =
     \<lparr>cm_Value = Custom (podMetric ''requests-per-second'' ns name q lbls), cm_Labels = lbls,
      cm_TTL = 15 * Minute\<rparr>"

definition twoNamespaces :: MetricStore where
  "twoNamespaces =
     \<lparr>customMetricsStore =
        [(''requests-per-second'',
          [(\<lparr>Group = '''', Resource = ''pods''\<rparr>,
            [(''ns1'', [(''pod-a'', storedPod ''ns1'' ''pod-a'' 42 [(''app'', ''x'')]),
                       (''pod-b'', storedPod ''ns1'' ''pod-b'' 7 [(''app'', ''y'')])]),
             (''ns2'', [(''pod-c'', storedPod ''ns2'' ''pod-c'' 5 [(''app'', ''x'')])])])])],
      externalMetricsStore = []\<rparr>"

text \<open>The selector \<^verbatim>\<open>key=value\<close>: it matches a label set that maps the key to the value.\<close>

definition equalsSelector :: "string \<Rightarrow> string \<Rightarrow> labels \<Rightarrow> bool" where
  "equalsSelector k v lbls \<longleftrightarrow> map_of lbls k = Some v"

text \<open>The configuration of a ZMON check metric.\<close>

definition zmonConfig :: MetricConfig where
  "zmonConfig =
     \<lparr>cfg_Name = ''zmon-check'', cfg_Type = ExternalMetricSourceType,
      cfg_ObjectReference = \<lparr>Kind = '''', Namespace = '''', Name = ''''\<rparr>,
      cfg_Config = [],
      cfg_Labels = [(''check-id'', ''1234''), (''query'', ''avg'')],
      PerReplica = False\<rparr>"

text \<open>
  A cluster with an ingress of two hosts and a scale target of the given number of
  ready replicas. The delegate plugin builds a collector from every configuration, here
  the configuration itself; every collector returns one value of 900 milli-units.
\<close>

definition exampleWorld :: "int32 \<Rightarrow> MetricConfig world" where
  "exampleWorld replicas =
     \<lparr>getIngress = (\<lambda>ns name. Inr \<lparr>Rules = [\<lparr>Host = ''www.example.org''\<rparr>,
                                                 \<lparr>Host = ''api.example.org''\<rparr>]\<rparr>),
      getDeploymentReadyReplicas = (\<lambda>ns name. Inr replicas),
      getStatefulSetReadyReplicas = (\<lambda>ns name. Inr replicas),
      pluginNewCollector = (\<lambda>h cfg interval. Inr cfg),
      collectorGetMetrics =
        (\<lambda>collector. Inr [ingressMetric ''requests-per-second'' ''ns1'' ''web'' 900 []])\<rparr>"

definition exampleSkipper :: "string \<Rightarrow> SkipperCollector" where
  "exampleSkipper kind =
     \<lparr>skipper_metricName = ''requests-per-second'',
      objectReference = \<lparr>Kind = ''Ingress'', Namespace = ''ns1'', Name = ''web''\<rparr>,
      hpa = \<lparr>hpa_Namespace = ''ns1'', ScaleTargetRef_Kind = kind, ScaleTargetRef_Name = ''web''\<rparr>,
      skipper_interval = 60000000000,
      config = \<lparr>cfg_Name = ''requests-per-second'', cfg_Type = ObjectMetricSourceType,
                 cfg_ObjectReference = \<lparr>Kind = ''Ingress'', Namespace = ''ns1'', Name = ''web''\<rparr>,
                 cfg_Config = [], cfg_Labels = [], PerReplica = True\<rparr>\<rparr>"

text \<open>
  Delegates named by strings; each returns one value for the pod of its name, with the
  quantity that \<open>q\<close> gives it, and the delegate \<^verbatim>\<open>down\<close> fails.
\<close>

definition exampleDelegate :: "(string \<Rightarrow> int64) \<Rightarrow> string \<Rightarrow> error + CollectedMetric list" where
  "exampleDelegate q d =
     (if d = ''down'' then Inl (Errorf ''connection refused'')
      else Inr [podMetric ''requests-per-second'' ''ns1'' d (q d) []])"

section \<open>Lemmas about the store\<close>

subsection \<open>Association lists\<close>

lemma set_update_subset: "set (AList.update k v al) \<subseteq> insert (k, v) (set al)"
  by (induction al) auto

lemma list_all_update:
  "list_all P al \<Longrightarrow> P (k, v) \<Longrightarrow> list_all P (AList.update k v al)"
  using set_update_subset[of k v al] by (auto simp: list_all_iff)

lemma distinctKeys_update: "distinctKeys al \<Longrightarrow> distinctKeys (AList.update k v al)"
  by (simp add: distinctKeys_def distinct_update)

lemma map_of_list_all: "list_all P al \<Longrightarrow> map_of al k = Some v \<Longrightarrow> P (k, v)"
  by (auto simp: list_all_iff dest: map_of_SomeD)

lemma map_of_filter_map:
  assumes "distinct (map fst xs)"
  shows "map_of (filter (\<lambda>(k, v). Q k v) (map (\<lambda>(k, v). (k, f k v)) xs)) k =
           (case map_of xs k of
              None \<Rightarrow> None
            | Some v \<Rightarrow> if Q k (f k v) then Some (f k v) else None)"
  using assms
proof (induction xs)
  case Nil
  then show ?case by simp
next
  case (Cons x xs)
  obtain k' v' where x: "x = (k', v')" by (cases x)
  from Cons.prems have notin: "k' \<notin> fst ` set xs" and d: "distinct (map fst xs)"
    by (auto simp: x)
  show ?case
  proof (cases "k = k'")
    case True
    with notin have "map_of xs k = None" by (simp add: map_of_eq_None_iff)
    with Cons.IH[OF d] True show ?thesis by (simp add: x)
  next
    case False
    with Cons.IH[OF d] show ?thesis by (simp add: x)
  qed
qed

lemma map_of_filter_values:
  assumes "distinct (map fst xs)"
  shows "map_of (filter (\<lambda>(k, v). Q k v) xs) k =
           (case map_of xs k of None \<Rightarrow> None | Some v \<Rightarrow> if Q k v then Some v else None)"
  using map_of_filter_map[OF assms, of Q "\<lambda>k v. v" k] by (simp add: case_prod_unfold)

lemma distinct_filter_map_keys:
  "distinct (map fst xs) \<Longrightarrow>
     distinct (map fst (filter P (map (\<lambda>(k, v). (k, f k v)) xs)))"
proof (induction xs)
  case Nil
  then show ?case by simp
next
  case (Cons x xs)
  have "fst ` set (filter P (map (\<lambda>(k, v). (k, f k v)) xs)) \<subseteq> fst ` set xs"
    by (auto simp: image_iff) force
  with Cons show ?case by (auto simp: case_prod_unfold)
qed

subsection \<open>Sweeps as filters\<close>

lemma expireResources_filter:
  "expireResources now rs = filter (\<lambda>(r, m). \<not> cm_TTL m < now r) rs"
  by (induction rs) auto

lemma expireNamespaces_filter:
  "expireNamespaces now nss =
     filter (\<lambda>(ns, rs). rs \<noteq> []) (map (\<lambda>(ns, rs). (ns, expireResources (now ns) rs)) nss)"
  by (induction nss) (auto simp: Let_def)

lemma expireGroups_filter:
  "expireGroups now gs =
     filter (\<lambda>(g, nss). nss \<noteq> []) (map (\<lambda>(g, nss). (g, expireNamespaces (now g) nss)) gs)"
  by (induction gs) (auto simp: Let_def)

lemma expireCustom_filter:
  "expireCustom now ms =
     filter (\<lambda>(m, gs). gs \<noteq> []) (map (\<lambda>(m, gs). (m, expireGroups (now m) gs)) ms)"
  by (induction ms) (auto simp: Let_def)

lemma expireLabelled_filter:
  "expireLabelled now ms = filter (\<lambda>(k, m). \<not> em_TTL m < now k) ms"
  by (induction ms) auto

lemma expireExternal_filter:
  "expireExternal now ms =
     filter (\<lambda>(m, xs). xs \<noteq> []) (map (\<lambda>(m, xs). (m, expireLabelled (now m) xs)) ms)"
  by (induction ms) (auto simp: Let_def)

subsection \<open>Insert and lookup\<close>

lemma insertCustomMetric_Inr_cases:
  assumes "insertCustomMetric now v lbls s = Inr s'"
  obtains
    (fresh) "map_of (customMetricsStore s) (MetricName v) = None"
      "s' = s\<lparr>customMetricsStore :=
              AList.update (MetricName v)
                [(groupResourceOf (Kind (DescribedObject v)),
                  [(Namespace (DescribedObject v),
                    [(Name (DescribedObject v),
                      \<lparr>cm_Value = v, cm_Labels = lbls, cm_TTL = now + 15 * Minute\<rparr>)])])]
                (customMetricsStore s)\<rparr>"
  | (known) metrics grp namespace where
      "map_of (customMetricsStore s) (MetricName v) = Some metrics"
      "map_of metrics (groupResourceOf (Kind (DescribedObject v))) = Some grp"
      "map_of grp (Namespace (DescribedObject v)) = Some namespace"
      "s' = s\<lparr>customMetricsStore :=
              AList.update (MetricName v)
                (AList.update (groupResourceOf (Kind (DescribedObject v)))
                   (AList.update (Namespace (DescribedObject v))
                      (AList.update (Name (DescribedObject v))
                         \<lparr>cm_Value = v, cm_Labels = lbls, cm_TTL = now + 15 * Minute\<rparr>
                         namespace) grp) metrics)
                (customMetricsStore s)\<rparr>"
  using assms
  by (auto simp: insertCustomMetric_def Let_def split: option.splits)

lemma insertCustomMetric_lookupEntry:
  assumes "insertCustomMetric now v lbls s = Inr s'"
  shows "lookupEntry s' =
           (lookupEntry s)(identityOf v \<mapsto>
              \<lparr>cm_Value = v, cm_Labels = lbls, cm_TTL = now + 15 * Minute\<rparr>)"
proof (rule ext)
  fix ident :: identity
  obtain a b c d where ident: "ident = (a, b, c, d)" by (cases ident)
  from assms show "lookupEntry s' ident =
          ((lookupEntry s)(identityOf v \<mapsto>
              \<lparr>cm_Value = v, cm_Labels = lbls, cm_TTL = now + 15 * Minute\<rparr>)) ident"
  proof (cases rule: insertCustomMetric_Inr_cases)
    case fresh
    then show ?thesis
      by (cases "a = MetricName v")
         (simp_all add: lookupEntry_def identityOf_def update_conv' ident)
  next
    case (known metrics grp namespace)
    show ?thesis
    proof (cases "a = MetricName v")
      case False
      with known show ?thesis
        by (simp add: lookupEntry_def identityOf_def update_conv' ident)
    next
      case a: True
      show ?thesis
      proof (cases "b = groupResourceOf (Kind (DescribedObject v))")
        case False
        with known a show ?thesis
          by (simp add: lookupEntry_def identityOf_def update_conv' ident)
      next
        case b: True
        show ?thesis
        proof (cases "c = Namespace (DescribedObject v)")
          case False
          with known a b show ?thesis
            by (simp add: lookupEntry_def identityOf_def update_conv' ident)
        next
          case True
          with known a b show ?thesis
            by (simp add: lookupEntry_def identityOf_def update_conv' ident)
        qed
      qed
    qed
  qed
qed

subsection \<open>Well-formedness is preserved\<close>

lemma wfNamespaces_update:
  "wfNamespaces nss \<Longrightarrow> distinctKeys rs \<Longrightarrow> wfNamespaces (AList.update ns rs nss)"
  by (simp add: wfNamespaces_def distinctKeys_update list_all_update)

lemma wfGroups_update:
  "wfGroups gs \<Longrightarrow> wfNamespaces nss \<Longrightarrow> wfGroups (AList.update g nss gs)"
  by (simp add: wfGroups_def distinctKeys_update list_all_update)

lemma wfNamespaces_lookup:
  "wfNamespaces nss \<Longrightarrow> map_of nss ns = Some rs \<Longrightarrow> distinctKeys rs"
  by (auto simp: wfNamespaces_def dest: map_of_list_all)

lemma wfGroups_lookup:
  "wfGroups gs \<Longrightarrow> map_of gs g = Some nss \<Longrightarrow> wfNamespaces nss"
  by (auto simp: wfGroups_def dest: map_of_list_all)

lemma wellFormed_lookup:
  "wellFormed s \<Longrightarrow> map_of (customMetricsStore s) m = Some gs \<Longrightarrow> wfGroups gs"
  by (auto simp: wellFormed_def dest: map_of_list_all)

lemma distinctKeys_single: "distinctKeys [(k, v)]"
  by (simp add: distinctKeys_def)

lemma wfNamespaces_single: "wfNamespaces [(ns, [(r, e)])]"
  by (simp add: wfNamespaces_def distinctKeys_def)

lemma wfGroups_single: "wfGroups [(g, [(ns, [(r, e)])])]"
  by (simp add: wfGroups_def distinctKeys_def wfNamespaces_single)

lemma wellFormed_custom_update:
  "wellFormed s \<Longrightarrow> wfGroups gs \<Longrightarrow>
     wellFormed (s\<lparr>customMetricsStore := AList.update m gs (customMetricsStore s)\<rparr>)"
  by (simp add: wellFormed_def distinctKeys_update list_all_update)

lemma insertCustomMetric_wellFormed:
  assumes "wellFormed s"
  shows "case insertCustomMetric now v lbls s of
           Inl (p, s') \<Rightarrow> wellFormed s'
         | Inr s' \<Rightarrow> wellFormed s'"
proof (cases "map_of (customMetricsStore s) (MetricName v)")
  case None
  with assms show ?thesis
    by (simp add: insertCustomMetric_def Let_def wellFormed_custom_update wfGroups_single)
next
  case (Some metrics)
  with assms have wm: "wfGroups metrics" by (rule wellFormed_lookup)
  show ?thesis
  proof (cases "map_of metrics (groupResourceOf (Kind (DescribedObject v)))")
    case None
    with Some assms wm show ?thesis
      by (simp add: insertCustomMetric_def Let_def wellFormed_custom_update wfGroups_update
          wfNamespaces_single)
  next
    case grp: (Some grp)
    with wm have wg: "wfNamespaces grp" by (rule wfGroups_lookup)
    show ?thesis
    proof (cases "map_of grp (Namespace (DescribedObject v))")
      case None
      with Some grp assms wm wg show ?thesis
        by (simp add: insertCustomMetric_def Let_def wellFormed_custom_update wfGroups_update
            wfNamespaces_update distinctKeys_single)
    next
      case ns: (Some namespace)
      with wg have "distinctKeys namespace" by (rule wfNamespaces_lookup)
      with Some grp ns assms wm wg show ?thesis
        by (simp add: insertCustomMetric_def Let_def wellFormed_custom_update wfGroups_update
            wfNamespaces_update distinctKeys_update)
    qed
  qed
qed

lemma insertExternalMetric_wellFormed:
  assumes "wellFormed s"
  shows "wellFormed (insertExternalMetric now metric s)"
proof (cases "map_of (externalMetricsStore s) (ext_MetricName metric)")
  case None
  with assms show ?thesis
    by (simp add: insertExternalMetric_def Let_def wellFormed_def distinctKeys_update
        list_all_update distinctKeys_single)
next
  case (Some metrics)
  with assms have "distinctKeys metrics"
    by (auto simp: wellFormed_def dest: map_of_list_all)
  with Some assms show ?thesis
    by (simp add: insertExternalMetric_def Let_def wellFormed_def distinctKeys_update
        list_all_update)
qed

lemma Insert_wellFormed:
  assumes "wellFormed s"
  shows "case Insert now v s of Inl (p, s') \<Rightarrow> wellFormed s' | Inr s' \<Rightarrow> wellFormed s'"
  using assms insertCustomMetric_wellFormed[OF assms, of now "Custom v" "Labels v"]
    insertExternalMetric_wellFormed[OF assms, of now "External v"]
  by (simp add: Insert_def split: MetricSourceType.split)

lemma distinctKeys_filter: "distinctKeys xs \<Longrightarrow> distinctKeys (filter P xs)"
  by (simp add: distinctKeys_def distinct_map_filter)

lemma distinctKeys_filter_map:
  "distinctKeys xs \<Longrightarrow> distinctKeys (filter P (map (\<lambda>(k, v). (k, f k v)) xs))"
  by (simp add: distinctKeys_def distinct_filter_map_keys)

lemma expireNamespaces_wf: "wfNamespaces nss \<Longrightarrow> wfNamespaces (expireNamespaces now nss)"
  by (auto simp: wfNamespaces_def expireNamespaces_filter expireResources_filter
      distinctKeys_filter_map list_all_iff distinctKeys_filter)

lemma expireGroups_wf: "wfGroups gs \<Longrightarrow> wfGroups (expireGroups now gs)"
  by (auto simp: wfGroups_def expireGroups_filter distinctKeys_filter_map list_all_iff
      expireNamespaces_wf)

lemma RemoveExpired_wellFormed:
  assumes "wellFormed s"
  shows "wellFormed (RemoveExpired nowC nowE s)"
  using assms
  by (auto simp: wellFormed_def RemoveExpired_def expireCustom_filter expireExternal_filter
      expireLabelled_filter distinctKeys_filter_map list_all_iff expireGroups_wf
      distinctKeys_filter)

subsection \<open>One namespace per group\<close>

lemma length_update_known: "map_of al k = Some v \<Longrightarrow> length (AList.update k w al) = length al"
  by (induction al) (auto split: if_splits)

lemma singleNamespaceGroups_lookup:
  "singleNamespaceGroups gs \<Longrightarrow> map_of gs g = Some nss \<Longrightarrow> length nss \<le> 1"
  by (auto simp: singleNamespaceGroups_def dest: map_of_list_all)

lemma singleNamespace_lookup:
  "singleNamespace s \<Longrightarrow> map_of (customMetricsStore s) m = Some gs \<Longrightarrow> singleNamespaceGroups gs"
  by (auto simp: singleNamespace_def dest: map_of_list_all)

lemma insertCustomMetric_singleNamespace:
  assumes "singleNamespace s" and "insertCustomMetric now v lbls s = Inr s'"
  shows "singleNamespace s'"
  using assms(2)
proof (cases rule: insertCustomMetric_Inr_cases)
  case fresh
  with assms(1) show ?thesis
    by (simp add: singleNamespace_def list_all_update singleNamespaceGroups_def)
next
  case (known metrics grp namespace)
  from assms(1) known(1) have sm: "singleNamespaceGroups metrics"
    by (rule singleNamespace_lookup)
  from sm known(2) have "length grp \<le> 1" by (rule singleNamespaceGroups_lookup)
  with known(3) have "length (AList.update (Namespace (DescribedObject v))
      (AList.update (Name (DescribedObject v))
         \<lparr>cm_Value = v, cm_Labels = lbls, cm_TTL = now + 15 * Minute\<rparr> namespace) grp) \<le> 1"
    by (simp add: length_update_known)
  with sm have "singleNamespaceGroups (AList.update (groupResourceOf (Kind (DescribedObject v)))
      (AList.update (Namespace (DescribedObject v))
        (AList.update (Name (DescribedObject v))
           \<lparr>cm_Value = v, cm_Labels = lbls, cm_TTL = now + 15 * Minute\<rparr> namespace) grp) metrics)"
    by (simp add: singleNamespaceGroups_def list_all_update)
  with assms(1) known(4) show ?thesis
    by (simp add: singleNamespace_def list_all_update)
qed

lemma Insert_singleNamespace:
  assumes "singleNamespace s" and "Insert now v s = Inr s'"
  shows "singleNamespace s'"
  using assms insertCustomMetric_singleNamespace[OF assms(1), of now "Custom v" "Labels v" s']
  by (auto simp: Insert_def insertExternalMetric_def singleNamespace_def Let_def
      split: MetricSourceType.splits option.splits)

lemma length_expireNamespaces: "length (expireNamespaces now nss) \<le> length nss"
  by (simp add: expireNamespaces_filter)

lemma expireGroups_singleNamespace:
  "singleNamespaceGroups gs \<Longrightarrow> singleNamespaceGroups (expireGroups now gs)"
  by (auto simp: singleNamespaceGroups_def expireGroups_filter list_all_iff
      intro: order_trans[OF length_expireNamespaces])

lemma RemoveExpired_singleNamespace:
  "singleNamespace s \<Longrightarrow> singleNamespace (RemoveExpired nowC nowE s)"
  by (auto simp: singleNamespace_def RemoveExpired_def expireCustom_filter list_all_iff
      expireGroups_singleNamespace)

subsection \<open>Reachable stores\<close>

lemma NewMetricStore_invariants: "wellFormed NewMetricStore" "singleNamespace NewMetricStore"
  by (simp_all add: NewMetricStore_def wellFormed_def singleNamespace_def distinctKeys_def)

lemma run_invariants:
  assumes "wellFormed s" and "singleNamespace s" and "run ops s = Inr s'"
  shows "wellFormed s' \<and> singleNamespace s'"
  using assms
proof (induction ops arbitrary: s)
  case Nil
  then show ?case by simp
next
  case (Cons op ops)
  show ?case
  proof (cases op)
    case (DoInsert now v)
    with Cons.prems obtain s1 where s1: "Insert now v s = Inr s1" "run ops s1 = Inr s'"
      by (auto split: sum.splits)
    from Insert_wellFormed[OF Cons.prems(1), of now v] s1(1) have "wellFormed s1" by simp
    moreover from Cons.prems(2) s1(1) have "singleNamespace s1" by (rule Insert_singleNamespace)
    ultimately show ?thesis using s1(2) by (rule Cons.IH)
  next
    case (DoRemoveExpired nowC nowE)
    with Cons.prems have "run ops (RemoveExpired nowC nowE s) = Inr s'" by simp
    with RemoveExpired_wellFormed[OF Cons.prems(1)] RemoveExpired_singleNamespace[OF Cons.prems(2)]
    show ?thesis by (rule Cons.IH)
  qed
qed

subsection \<open>Lookup after a sweep\<close>

lemma map_of_expireResources:
  assumes "distinctKeys rs"
  shows "map_of (expireResources now rs) d =
           (case map_of rs d of None \<Rightarrow> None
            | Some e \<Rightarrow> if cm_TTL e < now d then None else Some e)"
  using map_of_filter_values[of rs "\<lambda>r m. \<not> cm_TTL m < now r" d] assms
  by (simp add: expireResources_filter distinctKeys_def split: option.split)

lemma lookup_expireNamespaces:
  assumes "wfNamespaces nss"
  shows "(case map_of (expireNamespaces now nss) c of None \<Rightarrow> None | Some rs \<Rightarrow> map_of rs d) =
           (case map_of nss c of None \<Rightarrow> None
            | Some rs \<Rightarrow>
                (case map_of rs d of None \<Rightarrow> None
                 | Some e \<Rightarrow> if cm_TTL e < now c d then None else Some e))"
proof -
  from assms have d: "distinct (map fst nss)" by (simp add: wfNamespaces_def distinctKeys_def)
  have m: "map_of (expireNamespaces now nss) c =
          (case map_of nss c of None \<Rightarrow> None
           | Some rs \<Rightarrow> if expireResources (now c) rs \<noteq> [] then Some (expireResources (now c) rs)
                        else None)"
    using map_of_filter_map[OF d, of "\<lambda>k v. v \<noteq> []" "\<lambda>k v. expireResources (now k) v" c]
    by (simp add: expireNamespaces_filter)
  show ?thesis
  proof (cases "map_of nss c")
    case None
    with m show ?thesis by simp
  next
    case (Some rs)
    with assms have "distinctKeys rs" by (rule wfNamespaces_lookup)
    from map_of_expireResources[OF this, where now="now c" and d=d] Some m show ?thesis
      by (cases "expireResources (now c) rs = []") auto
  qed
qed

lemma lookup_expireGroups:
  assumes "wfGroups gs"
  shows "(case map_of (expireGroups now gs) b of None \<Rightarrow> None
          | Some nss \<Rightarrow> (case map_of nss c of None \<Rightarrow> None | Some rs \<Rightarrow> map_of rs d)) =
           (case map_of gs b of None \<Rightarrow> None
            | Some nss \<Rightarrow>
               (case map_of nss c of None \<Rightarrow> None
                | Some rs \<Rightarrow>
                    (case map_of rs d of None \<Rightarrow> None
                     | Some e \<Rightarrow> if cm_TTL e < now b c d then None else Some e)))"
proof -
  from assms have d: "distinct (map fst gs)" by (simp add: wfGroups_def distinctKeys_def)
  have m: "map_of (expireGroups now gs) b =
          (case map_of gs b of None \<Rightarrow> None
           | Some nss \<Rightarrow> if expireNamespaces (now b) nss \<noteq> [] then Some (expireNamespaces (now b) nss)
                        else None)"
    using map_of_filter_map[OF d, of "\<lambda>k v. v \<noteq> []" "\<lambda>k v. expireNamespaces (now k) v" b]
    by (simp add: expireGroups_filter)
  show ?thesis
  proof (cases "map_of gs b")
    case None
    with m show ?thesis by simp
  next
    case (Some nss)
    with assms have "wfNamespaces nss" by (rule wfGroups_lookup)
    from lookup_expireNamespaces[OF this, where now="now b" and c=c and d=d] Some m show ?thesis
      by (cases "expireNamespaces (now b) nss = []") auto
  qed
qed

lemma lookupEntry_RemoveExpired:
  assumes "wellFormed s"
  shows "lookupEntry (RemoveExpired nowC nowE s) (a, b, c, d) =
           (case lookupEntry s (a, b, c, d) of None \<Rightarrow> None
            | Some e \<Rightarrow> if cm_TTL e < nowC a b c d then None else Some e)"
proof -
  from assms have d: "distinct (map fst (customMetricsStore s))"
    by (simp add: wellFormed_def distinctKeys_def)
  have m: "map_of (expireCustom nowC (customMetricsStore s)) a =
          (case map_of (customMetricsStore s) a of None \<Rightarrow> None
           | Some gs \<Rightarrow> if expireGroups (nowC a) gs \<noteq> [] then Some (expireGroups (nowC a) gs)
                        else None)"
    using map_of_filter_map[OF d, of "\<lambda>k v. v \<noteq> []" "\<lambda>k v. expireGroups (nowC k) v" a]
    by (simp add: expireCustom_filter)
  show ?thesis
  proof (cases "map_of (customMetricsStore s) a")
    case None
    with m show ?thesis by (simp add: lookupEntry_def RemoveExpired_def)
  next
    case (Some gs)
    with assms have "wfGroups gs" by (rule wellFormed_lookup)
    from lookup_expireGroups[OF this, where now="nowC a" and b=b and c=c and d=d] Some m show ?thesis
      by (cases "expireGroups (nowC a) gs = []")
         (auto simp: lookupEntry_def RemoveExpired_def split: option.splits)
  qed
qed

subsection \<open>Lookup by name\<close>

lemma GetMetricsByName_named:
  assumes "c \<noteq> []"
  shows "GetMetricsByName s a b c d = map_option cm_Value (lookupEntry s (a, b, c, d))"
  using assms by (simp add: GetMetricsByName_def lookupEntry_def split: option.split)

lemma firstNamed_single:
  assumes "length grp \<le> 1" and "map_of grp c = Some rs"
  shows "firstNamed d grp = map_option cm_Value (map_of rs d)"
proof -
  from assms obtain x where "grp = [x]" by (cases grp) auto
  with assms(2) have "grp = [(c, rs)]" by (cases x) (auto split: if_splits)
  then show ?thesis by (simp split: option.split)
qed

lemma GetMetricsByName_lookupEntry:
  assumes "singleNamespace s" and "lookupEntry s (a, b, c, d) = Some e"
  shows "GetMetricsByName s a b c d = Some (cm_Value e)"
proof (cases "c = []")
  case False
  with assms(2) show ?thesis by (simp add: GetMetricsByName_named)
next
  case True
  from assms(2) obtain gs grp rs where l:
    "map_of (customMetricsStore s) a = Some gs" "map_of gs b = Some grp"
    "map_of grp c = Some rs" "map_of rs d = Some e"
    by (auto simp: lookupEntry_def split: option.splits)
  from assms(1) l(1) have "singleNamespaceGroups gs" by (rule singleNamespace_lookup)
  from this l(2) have "length grp \<le> 1" by (rule singleNamespaceGroups_lookup)
  from firstNamed_single[OF this l(3), where d=d] l True show ?thesis
    by (simp add: GetMetricsByName_def)
qed

subsection \<open>Histories\<close>

lemma run_append:
  "run (xs @ ys) s = (case run xs s of Inl p \<Rightarrow> Inl p | Inr s1 \<Rightarrow> run ys s1)"
proof (induction xs arbitrary: s)
  case Nil
  then show ?case by simp
next
  case (Cons op xs)
  then show ?case by (cases op) (simp_all split: sum.split)
qed

lemma Insert_lookupEntry_custom:
  assumes "isCustom v" and "Insert now v s = Inr s'"
  shows "lookupEntry s' =
           (lookupEntry s)(identityOf (Custom v) \<mapsto>
              \<lparr>cm_Value = Custom v, cm_Labels = Labels v, cm_TTL = now + 15 * Minute\<rparr>)"
proof -
  from assms have "insertCustomMetric now (Custom v) (Labels v) s = Inr s'"
    by (auto simp: isCustom_def Insert_def)
  then show ?thesis by (rule insertCustomMetric_lookupEntry)
qed

lemma Insert_lookupEntry_other:
  assumes "\<not> isCustom v" and "Insert now v s = Inr s'"
  shows "lookupEntry s' = lookupEntry s"
  using assms
  by (auto simp: isCustom_def Insert_def insertExternalMetric_def lookupEntry_def Let_def
      fun_eq_iff split: MetricSourceType.splits option.splits)

lemma run_keeps:
  assumes "wellFormed s" and "run ops s = Inr s'" and "lookupEntry s ident = Some e"
    and "list_all (leavesAlone ident (cm_TTL e)) ops"
  shows "lookupEntry s' ident = Some e"
  using assms
proof (induction ops arbitrary: s)
  case Nil
  then show ?case by simp
next
  case (Cons op ops)
  show ?case
  proof (cases op)
    case (DoInsert now v)
    with Cons.prems obtain s1 where s1: "Insert now v s = Inr s1" "run ops s1 = Inr s'"
      by (auto split: sum.splits)
    from Insert_wellFormed[OF Cons.prems(1), of now v] s1(1) have wf: "wellFormed s1" by simp
    from Cons.prems(4) DoInsert have la: "\<not> (isCustom v \<and> identityOf (Custom v) = ident)"
      and rest: "list_all (leavesAlone ident (cm_TTL e)) ops" by simp_all
    have "lookupEntry s1 ident = Some e"
    proof (cases "isCustom v")
      case True
      with la have "identityOf (Custom v) \<noteq> ident" by simp
      with Insert_lookupEntry_custom[OF True s1(1)] Cons.prems(3) show ?thesis by simp
    next
      case False
      with Insert_lookupEntry_other[OF False s1(1)] Cons.prems(3) show ?thesis by simp
    qed
    with wf s1(2) show ?thesis using rest by (rule Cons.IH)
  next
    case (DoRemoveExpired nowC nowE)
    with Cons.prems have r: "run ops (RemoveExpired nowC nowE s) = Inr s'" by simp
    obtain a b c d where ident: "ident = (a, b, c, d)" by (cases ident)
    from Cons.prems(4) DoRemoveExpired ident have "\<not> cm_TTL e < nowC a b c d"
      and rest: "list_all (leavesAlone ident (cm_TTL e)) ops" by simp_all
    with lookupEntry_RemoveExpired[OF Cons.prems(1), of nowC nowE a b c d] Cons.prems(3) ident
    have "lookupEntry (RemoveExpired nowC nowE s) ident = Some e" by simp
    with RemoveExpired_wellFormed[OF Cons.prems(1)] r show ?thesis using rest by (rule Cons.IH)
  qed
qed

subsection \<open>Entries and lookup\<close>

lemma in_concat_pairs:
  "x \<in> set (concat (map (\<lambda>(k, v). f k v) xs)) \<longleftrightarrow> (\<exists>k v. (k, v) \<in> set xs \<and> x \<in> set (f k v))"
  by (induction xs) auto

lemma in_resourceEntries:
  "((a, b, c, d), e) \<in> set (resourceEntries m g ns rs) \<longleftrightarrow>
     a = m \<and> b = g \<and> c = ns \<and> (d, e) \<in> set rs"
  by (induction rs) (auto simp: resourceEntries_def)

lemma in_namespaceEntries:
  "((a, b, c, d), e) \<in> set (namespaceEntries m g nss) \<longleftrightarrow>
     a = m \<and> b = g \<and> (\<exists>rs. (c, rs) \<in> set nss \<and> (d, e) \<in> set rs)"
  unfolding namespaceEntries_def in_concat_pairs in_resourceEntries by blast

lemma in_groupEntries:
  "((a, b, c, d), e) \<in> set (groupEntries m gs) \<longleftrightarrow>
     a = m \<and> (\<exists>nss rs. (b, nss) \<in> set gs \<and> (c, rs) \<in> set nss \<and> (d, e) \<in> set rs)"
  unfolding groupEntries_def in_concat_pairs in_namespaceEntries by blast

lemma in_customEntries:
  "((a, b, c, d), e) \<in> set (customEntries s) \<longleftrightarrow>
     (\<exists>gs nss rs. (a, gs) \<in> set (customMetricsStore s) \<and> (b, nss) \<in> set gs \<and>
        (c, rs) \<in> set nss \<and> (d, e) \<in> set rs)"
  unfolding customEntries_def in_concat_pairs in_groupEntries by blast

lemma customEntries_iff:
  assumes "wellFormed s"
  shows "((a, b, c, d), e) \<in> set (customEntries s) \<longleftrightarrow> lookupEntry s (a, b, c, d) = Some e"
proof
  assume "((a, b, c, d), e) \<in> set (customEntries s)"
  then obtain gs nss rs where m: "(a, gs) \<in> set (customMetricsStore s)" "(b, nss) \<in> set gs"
    "(c, rs) \<in> set nss" "(d, e) \<in> set rs"
    unfolding in_customEntries by blast
  from assms m(1) have 1: "map_of (customMetricsStore s) a = Some gs"
    by (simp add: wellFormed_def distinctKeys_def)
  with assms have "wfGroups gs" by (rule wellFormed_lookup)
  with m(2) have 2: "map_of gs b = Some nss"
    by (simp add: wfGroups_def distinctKeys_def)
  with \<open>wfGroups gs\<close> have "wfNamespaces nss" by (rule wfGroups_lookup)
  with m(3) have 3: "map_of nss c = Some rs"
    by (simp add: wfNamespaces_def distinctKeys_def)
  with \<open>wfNamespaces nss\<close> have "distinctKeys rs" by (rule wfNamespaces_lookup)
  with m(4) have "map_of rs d = Some e" by (simp add: distinctKeys_def)
  with 1 2 3 show "lookupEntry s (a, b, c, d) = Some e" by (simp add: lookupEntry_def)
next
  assume "lookupEntry s (a, b, c, d) = Some e"
  then obtain gs nss rs where "map_of (customMetricsStore s) a = Some gs" "map_of gs b = Some nss"
    "map_of nss c = Some rs" "map_of rs d = Some e"
    by (auto simp: lookupEntry_def split: option.splits)
  then have "(a, gs) \<in> set (customMetricsStore s)" "(b, nss) \<in> set gs" "(c, rs) \<in> set nss"
    "(d, e) \<in> set rs"
    by (auto dest: map_of_SomeD)
  then show "((a, b, c, d), e) \<in> set (customEntries s)"
    unfolding in_customEntries by blast
qed

lemma distinct_concat_keys:
  assumes "distinct (map fst xs)"
    and "\<And>k v. (k, v) \<in> set xs \<Longrightarrow> distinct (map fst (f k v))"
    and "\<And>k v i. (k, v) \<in> set xs \<Longrightarrow> i \<in> fst ` set (f k v) \<Longrightarrow> key i = k"
  shows "distinct (map fst (concat (map (\<lambda>(k, v). f k v) xs)))"
  using assms
proof (induction xs)
  case Nil
  then show ?case by simp
next
  case (Cons x xs)
  obtain k v where x: "x = (k, v)" by (cases x)
  have tail: "distinct (map fst (concat (map (\<lambda>(k, v). f k v) xs)))"
  proof (rule Cons.IH)
    show "distinct (map fst xs)" using Cons.prems(1) by simp
    show "distinct (map fst (f k v))" if "(k, v) \<in> set xs" for k v
      using Cons.prems(2)[of k v] that by simp
    show "key i = k" if "(k, v) \<in> set xs" "i \<in> fst ` set (f k v)" for k v i
      using Cons.prems(3)[of k v i] that by simp
  qed
  have head: "distinct (map fst (f k v))" using Cons.prems(2)[of k v] by (simp add: x)
  have disjoint: "fst ` set (f k v) \<inter> fst ` set (concat (map (\<lambda>(k, v). f k v) xs)) = {}"
  proof (rule ccontr)
    assume "\<not> ?thesis"
    then obtain i where i: "i \<in> fst ` set (f k v)"
      and i2: "i \<in> fst ` set (concat (map (\<lambda>(k, v). f k v) xs))" by blast
    from i2 obtain p where "p \<in> set (concat (map (\<lambda>(k, v). f k v) xs))" and ip: "i = fst p"
      by blast
    then obtain k' v' where kv: "(k', v') \<in> set xs" and "p \<in> set (f k' v')"
      unfolding in_concat_pairs by blast
    with ip have i': "i \<in> fst ` set (f k' v')" by simp
    from Cons.prems(3)[of k v i] i have "key i = k" by (simp add: x)
    moreover from Cons.prems(3)[of k' v' i] kv i' have "key i = k'" by simp
    ultimately have "k \<in> fst ` set xs" using kv by force
    with Cons.prems(1) show False by (simp add: x)
  qed
  from head tail disjoint show ?case by (simp add: x)
qed

lemma distinct_resourceEntries:
  "distinctKeys rs \<Longrightarrow> distinct (map fst (resourceEntries m g ns rs))"
  by (simp add: resourceEntries_def distinctKeys_def distinct_map case_prod_unfold comp_def
      inj_on_def)

lemma distinct_namespaceEntries:
  assumes "wfNamespaces nss"
  shows "distinct (map fst (namespaceEntries m g nss))"
  unfolding namespaceEntries_def
proof (rule distinct_concat_keys[where key = "\<lambda>(m, g, ns, r). ns"])
  show "distinct (map fst nss)" using assms by (simp add: wfNamespaces_def distinctKeys_def)
  show "distinct (map fst (resourceEntries m g k v))" if "(k, v) \<in> set nss" for k v
    using assms that by (auto simp: wfNamespaces_def list_all_iff intro: distinct_resourceEntries)
  show "(case i of (m, g, ns, r) \<Rightarrow> ns) = k"
    if "i \<in> fst ` set (resourceEntries m g k v)" for k v i
    using that by (auto simp: resourceEntries_def)
qed

lemma distinct_groupEntries:
  assumes "wfGroups gs"
  shows "distinct (map fst (groupEntries m gs))"
  unfolding groupEntries_def
proof (rule distinct_concat_keys[where key = "\<lambda>(m, g, ns, r). g"])
  show "distinct (map fst gs)" using assms by (simp add: wfGroups_def distinctKeys_def)
  show "distinct (map fst (namespaceEntries m k v))" if "(k, v) \<in> set gs" for k v
    using assms that by (auto simp: wfGroups_def list_all_iff intro: distinct_namespaceEntries)
  show "(case i of (m, g, ns, r) \<Rightarrow> g) = k"
    if "i \<in> fst ` set (namespaceEntries m k v)" for k v i
    using that by (auto simp: namespaceEntries_def resourceEntries_def)
qed

lemma distinct_customEntries:
  assumes "wellFormed s"
  shows "distinct (map fst (customEntries s))"
  unfolding customEntries_def
proof (rule distinct_concat_keys[where key = "\<lambda>(m, g, ns, r). m"])
  show "distinct (map fst (customMetricsStore s))"
    using assms by (simp add: wellFormed_def distinctKeys_def)
  show "distinct (map fst (groupEntries k v))" if "(k, v) \<in> set (customMetricsStore s)" for k v
    using assms that by (auto simp: wellFormed_def list_all_iff intro: distinct_groupEntries)
  show "(case i of (m, g, ns, r) \<Rightarrow> m) = k" if "i \<in> fst ` set (groupEntries k v)" for k v i
    using that by (auto simp: groupEntries_def namespaceEntries_def resourceEntries_def)
qed

lemma length_filter_key_le:
  "distinct (map fst es) \<Longrightarrow> length (filter (\<lambda>(i, e). i = k) es) \<le> 1"
proof (induction es)
  case Nil
  then show ?case by simp
next
  case (Cons x es)
  obtain i e where x: "x = (i, e)" by (cases x)
  show ?case
  proof (cases "i = k")
    case True
    with Cons.prems have "k \<notin> fst ` set es" by (simp add: x)
    then have "filter (\<lambda>(i, e). i = k) es = []"
      by (induction es) auto
    with True show ?thesis by (simp add: x)
  next
    case False
    with Cons show ?thesis by (simp add: x)
  qed
qed

lemma length_filter_key_eq:
  assumes "distinct (map fst es)" and "(k, e) \<in> set es"
  shows "length (filter (\<lambda>(i, e). i = k) es) = 1"
proof -
  from assms(2) have "filter (\<lambda>(i, e). i = k) es \<noteq> []" by (auto simp: filter_empty_conv)
  then have "length (filter (\<lambda>(i, e). i = k) es) \<ge> 1" by (cases "filter (\<lambda>(i, e). i = k) es") auto
  with length_filter_key_le[OF assms(1), of k] show ?thesis by simp
qed

lemma run_storeOf_wellFormed:
  assumes "wellFormed s"
  shows "wellFormed (storeOf (run ops s))"
  using assms
proof (induction ops arbitrary: s)
  case Nil
  then show ?case by (simp add: storeOf_def)
next
  case (Cons op ops)
  show ?case
  proof (cases op)
    case (DoInsert now v)
    show ?thesis
    proof (cases "Insert now v s")
      case (Inl ps)
      with Insert_wellFormed[OF Cons.prems, of now v] DoInsert show ?thesis
        by (cases ps) (simp add: storeOf_def)
    next
      case (Inr s1)
      with Insert_wellFormed[OF Cons.prems, of now v] have "wellFormed s1" by simp
      from Cons.IH[OF this] Inr DoInsert show ?thesis by simp
    qed
  next
    case (DoRemoveExpired nowC nowE)
    with Cons.IH[OF RemoveExpired_wellFormed[OF Cons.prems]] show ?thesis by simp
  qed
qed

subsection \<open>Rounding to a double\<close>








section \<open>Insert can panic\<close>

text \<open>
  Exactly when \<^verbatim>\<open>Insert\<close> panics: the metric is a custom one, its metric name is in
  the store, and its group-resource or its namespace is not yet there.
\<close>

lemma Insert_panics_iff:
  "(\<exists>p. Insert now v s = Inl p) \<longleftrightarrow>
     (Type v = ObjectMetricSourceType \<or> Type v = PodsMetricSourceType) \<and>
     (\<exists>metrics. map_of (customMetricsStore s) (MetricName (Custom v)) = Some metrics \<and>
        (case map_of metrics (groupResourceOf (Kind (DescribedObject (Custom v)))) of
           None \<Rightarrow> True
         | Some grp \<Rightarrow> map_of grp (Namespace (DescribedObject (Custom v))) = None))"
  by (auto simp: Insert_def insertCustomMetric_def Let_def
      split: MetricSourceType.splits option.splits)

text \<open>
  C2 (the claim: \<^verbatim>\<open>Insert\<close> is total, and inserting a custom metric whose name is
  present but whose group-resource or namespace is new meets no nil-map assignment).
  The code does otherwise. After \<^verbatim>\<open>requests-per-second\<close> of pod \<^verbatim>\<open>ns1/pod-a\<close> is stored,
  inserting the same metric name for pod \<^verbatim>\<open>ns2/pod-b\<close> (a new namespace) panics with an
  assignment to an entry in a nil map, and so does inserting it for the ingress
  \<^verbatim>\<open>ns1/web\<close> (a new group-resource).
\<close>

theorem Insert_panics_on_new_namespace_or_group:
  "\<exists>s1 s2 s3.
     Insert 0 (podMetric ''requests-per-second'' ''ns1'' ''pod-a'' 42 []) NewMetricStore = Inr s1 \<and>
     Insert 5 (podMetric ''requests-per-second'' ''ns2'' ''pod-b'' 7 []) s1
       = Inl (AssignmentToEntryInNilMap, s2) \<and>
     Insert 5 (ingressMetric ''requests-per-second'' ''ns1'' ''web'' 7 []) s1
       = Inl (AssignmentToEntryInNilMap, s3)"
  by (simp add: Insert_def insertCustomMetric_def podMetric_def ingressMetric_def
      NewMetricStore_def groupResourceOf_def Let_def)

section \<open>Insert and exact lookup\<close>

text \<open>
  What holds of the code: in the histories in which every \<^verbatim>\<open>Insert\<close> returns, insert and
  exact lookup are a round trip. Take any such history from the empty store and any
  insert of a custom metric in it. As long as no later insert has the same identity
  (metric name, group-resource, namespace, object name) and no later sweep reads a clock
  after the entry's expiry, \<^verbatim>\<open>GetMetricsByName\<close> with that identity returns exactly the
  inserted value. These histories hold at most one group-resource per metric name and
  one namespace per group-resource, for an insert that brings a second one panics.
\<close>

lemma insert_then_GetMetricsByName:
  assumes "run (before @ DoInsert now v # later) NewMetricStore = Inr s'"
    and "isCustom v"
    and "list_all (leavesAlone (identityOf (Custom v)) (now + 15 * Minute)) later"
  shows "GetMetricsByName s' (MetricName (Custom v))
           (groupResourceOf (Kind (DescribedObject (Custom v))))
           (Namespace (DescribedObject (Custom v))) (Name (DescribedObject (Custom v)))
         = Some (Custom v)"
proof -
  from assms(1) obtain s s1 where s: "run before NewMetricStore = Inr s"
    and s1: "Insert now v s = Inr s1" and s': "run later s1 = Inr s'"
    by (auto simp: run_append split: sum.splits)
  from run_invariants[OF NewMetricStore_invariants s] have inv: "wellFormed s" "singleNamespace s"
    by simp_all
  from Insert_wellFormed[OF inv(1), of now v] s1 have wf1: "wellFormed s1" by simp
  from inv(2) s1 have sn1: "singleNamespace s1" by (rule Insert_singleNamespace)
  from run_invariants[OF wf1 sn1 s'] have sn': "singleNamespace s'" by simp
  let ?e = "\<lparr>cm_Value = Custom v, cm_Labels = Labels v, cm_TTL = now + 15 * Minute\<rparr>"
  from Insert_lookupEntry_custom[OF assms(2) s1]
  have "lookupEntry s1 (identityOf (Custom v)) = Some ?e" by simp
  with wf1 s' have "lookupEntry s' (identityOf (Custom v)) = Some ?e"
    using assms(3) by (rule run_keeps[where e = ?e, simplified])
  then have "lookupEntry s' (MetricName (Custom v),
      groupResourceOf (Kind (DescribedObject (Custom v))),
      Namespace (DescribedObject (Custom v)), Name (DescribedObject (Custom v))) = Some ?e"
    by (simp add: identityOf_def)
  from GetMetricsByName_lookupEntry[OF sn' this] show ?thesis by simp
qed

lemma insert_then_GetMetricsByName_instance:
  "\<exists>s'. run ([DoInsert 0 (podMetric ''requests-per-second'' ''ns1'' ''pod-c'' 7 [])] @
             DoInsert 10 (podMetric ''requests-per-second'' ''ns1'' ''pod-a'' 42 [(''app'', ''x'')]) #
             [DoInsert 20 (podMetric ''requests-per-second'' ''ns1'' ''pod-b'' 8 []),
              DoRemoveExpired (\<lambda>m g ns r. 900000000005) (\<lambda>m k. 900000000005)])
          NewMetricStore = Inr s' \<and>
        isCustom (podMetric ''requests-per-second'' ''ns1'' ''pod-a'' 42 [(''app'', ''x'')]) \<and>
        list_all (leavesAlone
            (identityOf (Custom (podMetric ''requests-per-second'' ''ns1'' ''pod-a'' 42 [(''app'', ''x'')])))
            (10 + 15 * Minute))
          [DoInsert 20 (podMetric ''requests-per-second'' ''ns1'' ''pod-b'' 8 []),
           DoRemoveExpired (\<lambda>m g ns r. 900000000005) (\<lambda>m k. 900000000005)] \<and>
        GetMetricsByName s' ''requests-per-second'' \<lparr>Group = '''', Resource = ''pods''\<rparr>
          ''ns1'' ''pod-a''
        = Some (Custom (podMetric ''requests-per-second'' ''ns1'' ''pod-a'' 42 [(''app'', ''x'')]))"
proof -
  let ?v = "podMetric ''requests-per-second'' ''ns1'' ''pod-a'' 42 [(''app'', ''x'')]"
  let ?before = "[DoInsert 0 (podMetric ''requests-per-second'' ''ns1'' ''pod-c'' 7 [])]"
  let ?later = "[DoInsert 20 (podMetric ''requests-per-second'' ''ns1'' ''pod-b'' 8 []),
                 DoRemoveExpired (\<lambda>m g ns r. 900000000005) (\<lambda>m k. 900000000005)]"
  let ?r = "run (?before @ DoInsert 10 ?v # ?later) NewMetricStore"
  have "\<not> isl ?r"
    by (simp add: Insert_def insertCustomMetric_def podMetric_def NewMetricStore_def
        groupResourceOf_def Let_def RemoveExpired_def Minute_def)
  then have r: "?r = Inr (projr ?r)" by simp
  have c: "isCustom ?v" by (simp add: isCustom_def podMetric_def)
  have l: "list_all (leavesAlone (identityOf (Custom ?v)) (10 + 15 * Minute)) ?later"
    by (simp add: isCustom_def podMetric_def identityOf_def groupResourceOf_def Minute_def)
  from insert_then_GetMetricsByName[OF r c l] r c l show ?thesis
    by (simp add: podMetric_def groupResourceOf_def) blast
qed

text \<open>
  C1 (the claim: for every custom metric inserted, after every preceding sequence of
  inserts, \<^verbatim>\<open>GetMetricsByName\<close> with the metric's identity returns exactly the inserted
  value). The code does otherwise. After \<^verbatim>\<open>requests-per-second\<close> of pod \<^verbatim>\<open>ns1/pod-a\<close> is
  stored, the insert of \<^verbatim>\<open>requests-per-second\<close> of pod \<^verbatim>\<open>ns2/pod-b\<close> panics with an
  assignment to an entry in a nil map, and so does every history that goes on from
  there: no store is returned in which \<^verbatim>\<open>ns2/pod-b\<close> could be looked up. The store
  that the first insert returned knows nothing of \<^verbatim>\<open>ns2/pod-b\<close>. The same holds when
  the second metric is of the ingress \<^verbatim>\<open>ns1/web\<close>, a new group-resource.
\<close>

theorem insert_in_second_namespace_has_no_round_trip:
  "(\<forall>later. \<exists>s.
      run ([DoInsert 0 (podMetric ''requests-per-second'' ''ns1'' ''pod-a'' 42 []),
            DoInsert 5 (podMetric ''requests-per-second'' ''ns2'' ''pod-b'' 7 [])] @ later)
        NewMetricStore = Inl (AssignmentToEntryInNilMap, s)) \<and>
   (\<forall>later. \<exists>s.
      run ([DoInsert 0 (podMetric ''requests-per-second'' ''ns1'' ''pod-a'' 42 []),
            DoInsert 5 (ingressMetric ''requests-per-second'' ''ns1'' ''web'' 7 [])] @ later)
        NewMetricStore = Inl (AssignmentToEntryInNilMap, s)) \<and>
   (\<exists>s. run [DoInsert 0 (podMetric ''requests-per-second'' ''ns1'' ''pod-a'' 42 [])]
          NewMetricStore = Inr s \<and>
        GetMetricsByName s ''requests-per-second'' \<lparr>Group = '''', Resource = ''pods''\<rparr>
          ''ns2'' ''pod-b'' = None \<and>
        GetMetricsByName s ''requests-per-second''
          \<lparr>Group = ''extensions'', Resource = ''ingresses''\<rparr> ''ns1'' ''web'' = None)"
  by (simp add: Insert_def insertCustomMetric_def podMetric_def ingressMetric_def
      NewMetricStore_def groupResourceOf_def Let_def GetMetricsByName_def)

section \<open>The sweep\<close>

lemma RemoveExpired_noEmptyContainers: "noEmptyContainers (RemoveExpired nowC nowE s)"
  by (auto simp: noEmptyContainers_def RemoveExpired_def list_all_iff expireCustom_filter
      expireGroups_filter expireNamespaces_filter expireExternal_filter)

lemma RemoveExpired_custom_unexpired:
  assumes "((m, g, ns, r), metric) \<in> set (customEntries (RemoveExpired nowC nowE s))"
  shows "\<not> cm_TTL metric < nowC m g ns r"
  using assms
  by (auto simp: customEntries_def groupEntries_def namespaceEntries_def resourceEntries_def
      RemoveExpired_def expireCustom_filter expireGroups_filter expireNamespaces_filter
      expireResources_filter)

lemma RemoveExpired_external_unexpired:
  assumes "((m, k), metric) \<in> set (externalEntries (RemoveExpired nowC nowE s))"
  shows "\<not> em_TTL metric < nowE m k"
  using assms
  by (auto simp: externalEntries_def RemoveExpired_def expireExternal_filter
      expireLabelled_filter)

text \<open>
  C4. Postcondition of \<^verbatim>\<open>RemoveExpired\<close>. Let \<open>t0\<close> be the time of the call; every clock
  reading of the sweep is taken at \<open>t0\<close> or later. After the sweep no entry of the
  custom store and no entry of the external store has an expiry before \<open>t0\<close>, and no
  map of the store is empty: not an object-name map, not a namespace map, not a
  group-resource map, and not a label-key map of the external store.
\<close>

theorem RemoveExpired_postcondition:
  assumes "\<forall>m g ns r. t0 \<le> nowCustom m g ns r" and "\<forall>m k. t0 \<le> nowExternal m k"
  shows "list_all (\<lambda>(ident, metric). \<not> cm_TTL metric < t0)
           (customEntries (RemoveExpired nowCustom nowExternal s)) \<and>
         list_all (\<lambda>(key, metric). \<not> em_TTL metric < t0)
           (externalEntries (RemoveExpired nowCustom nowExternal s)) \<and>
         noEmptyContainers (RemoveExpired nowCustom nowExternal s)"
proof (intro conjI)
  show "list_all (\<lambda>(ident, metric). \<not> cm_TTL metric < t0)
           (customEntries (RemoveExpired nowCustom nowExternal s))"
    unfolding list_all_iff
  proof (clarify)
    fix m g ns r metric
    assume "((m, g, ns, r), metric) \<in> set (customEntries (RemoveExpired nowCustom nowExternal s))"
      and "cm_TTL metric < t0"
    from RemoveExpired_custom_unexpired[OF this(1)] this(2) assms(1)
    show False by (metis less_le_trans)
  qed
  show "list_all (\<lambda>(key, metric). \<not> em_TTL metric < t0)
           (externalEntries (RemoveExpired nowCustom nowExternal s))"
    unfolding list_all_iff
  proof (clarify)
    fix m k metric
    assume "((m, k), metric) \<in> set (externalEntries (RemoveExpired nowCustom nowExternal s))"
      and "em_TTL metric < t0"
    from RemoveExpired_external_unexpired[OF this(1)] this(2) assms(2)
    show False by (metis less_le_trans)
  qed
  show "noEmptyContainers (RemoveExpired nowCustom nowExternal s)"
    by (rule RemoveExpired_noEmptyContainers)
qed

text \<open>
  An instance: \<^verbatim>\<open>pod-a\<close> and a queue length are stored at time 0, \<^verbatim>\<open>pod-b\<close> at time 10;
  the sweep is called 5 ns after the first expiry and reads its clock 1 ns later. Of
  the three entries \<^verbatim>\<open>pod-b\<close> remains, and the external store is empty.
\<close>

theorem RemoveExpired_postcondition_witness:
  "(\<forall>m g ns r. (900000000005::int) \<le> (\<lambda>m g ns r. 900000000006) m g ns r) \<and>
   (\<forall>m k. (900000000005::int) \<le> (\<lambda>m k. 900000000006) m k) \<and>
   list_all (\<lambda>(ident, metric). \<not> cm_TTL metric < 900000000005)
     (customEntries (RemoveExpired (\<lambda>m g ns r. 900000000006) (\<lambda>m k. 900000000006)
        (storeOf (run [DoInsert 0 (podMetric ''requests-per-second'' ''ns1'' ''pod-a'' 42 []),
                       DoInsert 10 (podMetric ''requests-per-second'' ''ns1'' ''pod-b'' 7 []),
                       DoInsert 0 (externalMetric ''queue-length'' [(''queue'', ''a'')] 3)]
                  NewMetricStore)))) \<and>
   list_all (\<lambda>(key, metric). \<not> em_TTL metric < 900000000005)
     (externalEntries (RemoveExpired (\<lambda>m g ns r. 900000000006) (\<lambda>m k. 900000000006)
        (storeOf (run [DoInsert 0 (podMetric ''requests-per-second'' ''ns1'' ''pod-a'' 42 []),
                       DoInsert 10 (podMetric ''requests-per-second'' ''ns1'' ''pod-b'' 7 []),
                       DoInsert 0 (externalMetric ''queue-length'' [(''queue'', ''a'')] 3)]
                  NewMetricStore)))) \<and>
   noEmptyContainers (RemoveExpired (\<lambda>m g ns r. 900000000006) (\<lambda>m k. 900000000006)
        (storeOf (run [DoInsert 0 (podMetric ''requests-per-second'' ''ns1'' ''pod-a'' 42 []),
                       DoInsert 10 (podMetric ''requests-per-second'' ''ns1'' ''pod-b'' 7 []),
                       DoInsert 0 (externalMetric ''queue-length'' [(''queue'', ''a'')] 3)]
                  NewMetricStore))) \<and>
   map fst (customEntries (RemoveExpired (\<lambda>m g ns r. 900000000006) (\<lambda>m k. 900000000006)
        (storeOf (run [DoInsert 0 (podMetric ''requests-per-second'' ''ns1'' ''pod-a'' 42 []),
                       DoInsert 10 (podMetric ''requests-per-second'' ''ns1'' ''pod-b'' 7 []),
                       DoInsert 0 (externalMetric ''queue-length'' [(''queue'', ''a'')] 3)]
                  NewMetricStore))))
     = [(''requests-per-second'', \<lparr>Group = '''', Resource = ''pods''\<rparr>, ''ns1'', ''pod-b'')] \<and>
   externalMetricsStore (RemoveExpired (\<lambda>m g ns r. 900000000006) (\<lambda>m k. 900000000006)
        (storeOf (run [DoInsert 0 (podMetric ''requests-per-second'' ''ns1'' ''pod-a'' 42 []),
                       DoInsert 10 (podMetric ''requests-per-second'' ''ns1'' ''pod-b'' 7 []),
                       DoInsert 0 (externalMetric ''queue-length'' [(''queue'', ''a'')] 3)]
                  NewMetricStore))) = []"
proof -
  have h1: "\<forall>m g ns r. (900000000005::int) \<le> (\<lambda>m g ns r. 900000000006) m g ns r" by simp
  have h2: "\<forall>m k. (900000000005::int) \<le> (\<lambda>m k. 900000000006) m k" by simp
  have e: "map fst (customEntries (RemoveExpired (\<lambda>m g ns r. 900000000006) (\<lambda>m k. 900000000006)
        (storeOf (run [DoInsert 0 (podMetric ''requests-per-second'' ''ns1'' ''pod-a'' 42 []),
                       DoInsert 10 (podMetric ''requests-per-second'' ''ns1'' ''pod-b'' 7 []),
                       DoInsert 0 (externalMetric ''queue-length'' [(''queue'', ''a'')] 3)]
                  NewMetricStore))))
     = [(''requests-per-second'', \<lparr>Group = '''', Resource = ''pods''\<rparr>, ''ns1'', ''pod-b'')] \<and>
   externalMetricsStore (RemoveExpired (\<lambda>m g ns r. 900000000006) (\<lambda>m k. 900000000006)
        (storeOf (run [DoInsert 0 (podMetric ''requests-per-second'' ''ns1'' ''pod-a'' 42 []),
                       DoInsert 10 (podMetric ''requests-per-second'' ''ns1'' ''pod-b'' 7 []),
                       DoInsert 0 (externalMetric ''queue-length'' [(''queue'', ''a'')] 3)]
                  NewMetricStore))) = []"
    by (simp add: customEntries_def groupEntries_def namespaceEntries_def resourceEntries_def
        RemoveExpired_def storeOf_def Insert_def insertCustomMetric_def insertExternalMetric_def
        podMetric_def externalMetric_def NewMetricStore_def groupResourceOf_def Let_def
        Minute_def hashLabelMap_def zeroMetricValue_def)
  from RemoveExpired_postcondition[OF h1 h2] h1 h2 e show ?thesis by blast
qed

section \<open>Reinsert\<close>

lemma Insert_known_returns:
  assumes "isCustom v" and "lookupEntry s (identityOf (Custom v)) = Some old"
  shows "\<exists>s'. Insert now v s = Inr s'"
  using assms
  by (auto simp: isCustom_def Insert_def insertCustomMetric_def lookupEntry_def identityOf_def
      Let_def split: option.splits)

text \<open>
  C3. Overwrite on reinsert. In a store reached by any history that returned, inserting a
  custom metric whose identity is already present returns normally; the entry at that
  identity then holds the new value and labels and the expiry \<open>now + 15 * Minute\<close>, and
  the store holds exactly one entry with that identity. No store that any history of
  inserts and sweeps leaves behind, whether the history returned or ended in a panic,
  holds two entries with one identity.
\<close>

theorem reinsert_overwrites:
  assumes "run history NewMetricStore = Inr s"
    and "isCustom v"
    and "lookupEntry s (identityOf (Custom v)) = Some old"
  shows "\<exists>s'. Insert now v s = Inr s' \<and>
           lookupEntry s' (identityOf (Custom v))
             = Some \<lparr>cm_Value = Custom v, cm_Labels = Labels v, cm_TTL = now + 15 * Minute\<rparr> \<and>
           length (filter (\<lambda>(ident, metric). ident = identityOf (Custom v)) (customEntries s')) = 1 \<and>
           (\<forall>ident. length (filter (\<lambda>(i, metric). i = ident) (customEntries s')) \<le> 1) \<and>
           (\<forall>ident. length (filter (\<lambda>(i, metric). i = ident)
                      (customEntries (storeOf (run anyHistory NewMetricStore)))) \<le> 1)"
proof -
  from Insert_known_returns[OF assms(2,3)] obtain s' where s': "Insert now v s = Inr s'" by blast
  from run_storeOf_wellFormed[OF NewMetricStore_invariants(1), of history] assms(1)
  have wf: "wellFormed s" by (simp add: storeOf_def)
  from Insert_wellFormed[OF wf, of now v] s' have wf': "wellFormed s'" by simp
  let ?e = "\<lparr>cm_Value = Custom v, cm_Labels = Labels v, cm_TTL = now + 15 * Minute\<rparr>"
  from Insert_lookupEntry_custom[OF assms(2) s']
  have l: "lookupEntry s' (identityOf (Custom v)) = Some ?e" by simp
  obtain a b c d where i: "identityOf (Custom v) = (a, b, c, d)" by (cases "identityOf (Custom v)")
  from l i customEntries_iff[OF wf', of a b c d ?e]
  have "(identityOf (Custom v), ?e) \<in> set (customEntries s')" by simp
  with distinct_customEntries[OF wf']
  have one: "length (filter (\<lambda>(ident, metric). ident = identityOf (Custom v)) (customEntries s')) = 1"
    by (rule length_filter_key_eq)
  from s' l one length_filter_key_le[OF distinct_customEntries[OF wf']]
    length_filter_key_le[OF distinct_customEntries[OF
        run_storeOf_wellFormed[OF NewMetricStore_invariants(1), of anyHistory]]]
  show ?thesis by blast
qed

theorem reinsert_overwrites_witness:
  "\<exists>s. run [DoInsert 0 (podMetric ''requests-per-second'' ''ns1'' ''pod-a'' 42 [(''app'', ''x'')])]
          NewMetricStore = Inr s \<and>
       isCustom (podMetric ''requests-per-second'' ''ns1'' ''pod-a'' 50 [(''app'', ''y'')]) \<and>
       lookupEntry s
         (identityOf (Custom (podMetric ''requests-per-second'' ''ns1'' ''pod-a'' 50 [(''app'', ''y'')])))
         = Some \<lparr>cm_Value = Custom (podMetric ''requests-per-second'' ''ns1'' ''pod-a'' 42
                                      [(''app'', ''x'')]),
                 cm_Labels = [(''app'', ''x'')], cm_TTL = 900000000000\<rparr> \<and>
       (\<exists>s'. Insert 100 (podMetric ''requests-per-second'' ''ns1'' ''pod-a'' 50 [(''app'', ''y'')]) s
               = Inr s' \<and>
             lookupEntry s'
               (''requests-per-second'', \<lparr>Group = '''', Resource = ''pods''\<rparr>, ''ns1'', ''pod-a'')
               = Some \<lparr>cm_Value = Custom (podMetric ''requests-per-second'' ''ns1'' ''pod-a'' 50
                                            [(''app'', ''y'')]),
                       cm_Labels = [(''app'', ''y'')], cm_TTL = 900000000100\<rparr> \<and>
             length (filter (\<lambda>(ident, metric). ident =
                        (''requests-per-second'', \<lparr>Group = '''', Resource = ''pods''\<rparr>, ''ns1'',
                         ''pod-a''))
                      (customEntries s')) = 1)"
proof -
  let ?v = "podMetric ''requests-per-second'' ''ns1'' ''pod-a'' 50 [(''app'', ''y'')]"
  let ?r = "run [DoInsert 0 (podMetric ''requests-per-second'' ''ns1'' ''pod-a'' 42
                               [(''app'', ''x'')])] NewMetricStore"
  let ?old = "\<lparr>cm_Value = Custom (podMetric ''requests-per-second'' ''ns1'' ''pod-a'' 42
                                    [(''app'', ''x'')]),
               cm_Labels = [(''app'', ''x'')], cm_TTL = 900000000000\<rparr>"
  have "\<not> isl ?r"
    by (simp add: Insert_def insertCustomMetric_def podMetric_def NewMetricStore_def Let_def)
  then have r: "?r = Inr (projr ?r)" by simp
  have c: "isCustom ?v" by (simp add: isCustom_def podMetric_def)
  have i: "identityOf (Custom ?v)
      = (''requests-per-second'', \<lparr>Group = '''', Resource = ''pods''\<rparr>, ''ns1'', ''pod-a'')"
    by (simp add: identityOf_def podMetric_def groupResourceOf_def)
  have l: "lookupEntry (projr ?r) (identityOf (Custom ?v)) = Some ?old"
    unfolding i
    by (simp add: Insert_def insertCustomMetric_def podMetric_def NewMetricStore_def Let_def
        lookupEntry_def groupResourceOf_def Minute_def)
  have m: "(100::int) + 15 * Minute = 900000000100" by (simp add: Minute_def)
  have lb: "Labels ?v = [(''app'', ''y'')]" by (simp add: podMetric_def)
  from reinsert_overwrites[OF r c l, of 100] r c l show ?thesis
    unfolding i m lb by blast
qed

section \<open>Selector queries\<close>

lemma set_matchedIn:
  "set (matchedIn selector metricMap) =
     {cm_Value e | name e. (name, e) \<in> set metricMap \<and> selector (cm_Labels e)}"
  by (force simp: matchedIn_def)

text \<open>
  C6. Namespace scoping of selector queries, for every store whose maps have distinct
  keys. If the metric name or the group-resource is unknown, \<^verbatim>\<open>GetMetricsBySelector\<close>
  returns the nil result. Otherwise it returns a list: with the empty namespace its
  items are the values of the entries, in any namespace under the metric name and
  group-resource, whose labels the selector matches; with another namespace they are
  the values of the matching entries of that namespace. There is no error result.
\<close>

theorem GetMetricsBySelector_scoping:
  assumes "wellFormed s"
  shows "(\<not> knownGroup s metricName groupResource \<longrightarrow>
            GetMetricsBySelector s metricName groupResource namespace selector = None) \<and>
         (knownGroup s metricName groupResource \<longrightarrow>
            (\<exists>items. GetMetricsBySelector s metricName groupResource namespace selector = Some items \<and>
               set items =
                 (if namespace = ''''
                  then {cm_Value e | ns name e.
                          lookupEntry s (metricName, groupResource, ns, name) = Some e \<and>
                          selector (cm_Labels e)}
                  else {cm_Value e | name e.
                          lookupEntry s (metricName, groupResource, namespace, name) = Some e \<and>
                          selector (cm_Labels e)})))"
proof (intro conjI impI)
  assume "\<not> knownGroup s metricName groupResource"
  then show "GetMetricsBySelector s metricName groupResource namespace selector = None"
    by (auto simp: knownGroup_def GetMetricsBySelector_def split: option.splits)
next
  assume "knownGroup s metricName groupResource"
  then obtain metrics grp where m: "map_of (customMetricsStore s) metricName = Some metrics"
    and g: "map_of metrics groupResource = Some grp"
    by (auto simp: knownGroup_def split: option.splits)
  from assms m have "wfGroups metrics" by (rule wellFormed_lookup)
  from this g have wg: "wfNamespaces grp" by (rule wfGroups_lookup)
  then have dg: "distinct (map fst grp)" by (simp add: wfNamespaces_def distinctKeys_def)
  have look: "lookupEntry s (metricName, groupResource, ns, name) = Some e \<longleftrightarrow>
      (\<exists>rs. (ns, rs) \<in> set grp \<and> (name, e) \<in> set rs)" for ns name e
  proof
    assume "lookupEntry s (metricName, groupResource, ns, name) = Some e"
    with m g obtain rs where "map_of grp ns = Some rs" "map_of rs name = Some e"
      by (auto simp: lookupEntry_def split: option.splits)
    then show "\<exists>rs. (ns, rs) \<in> set grp \<and> (name, e) \<in> set rs"
      by (auto dest: map_of_SomeD)
  next
    assume "\<exists>rs. (ns, rs) \<in> set grp \<and> (name, e) \<in> set rs"
    then obtain rs where rs: "(ns, rs) \<in> set grp" "(name, e) \<in> set rs" by blast
    from dg rs(1) have 1: "map_of grp ns = Some rs" by simp
    with wg have "distinctKeys rs" by (rule wfNamespaces_lookup)
    with rs(2) have "map_of rs name = Some e" by (simp add: distinctKeys_def)
    with m g 1 show "lookupEntry s (metricName, groupResource, ns, name) = Some e"
      by (simp add: lookupEntry_def)
  qed
  show "\<exists>items. GetMetricsBySelector s metricName groupResource namespace selector = Some items \<and>
       set items =
         (if namespace = ''''
          then {cm_Value e | ns name e.
                  lookupEntry s (metricName, groupResource, ns, name) = Some e \<and>
                  selector (cm_Labels e)}
          else {cm_Value e | name e.
                  lookupEntry s (metricName, groupResource, namespace, name) = Some e \<and>
                  selector (cm_Labels e)})"
  proof (cases "namespace = ''''")
    case True
    have "set (concat (map (\<lambda>(ns, metricMap). matchedIn selector metricMap) grp)) =
            {cm_Value e | ns name e.
               lookupEntry s (metricName, groupResource, ns, name) = Some e \<and>
               selector (cm_Labels e)}"
      unfolding look by (auto simp: set_matchedIn)
    with True m g show ?thesis by (simp add: GetMetricsBySelector_def)
  next
    case False
    show ?thesis
    proof (cases "map_of grp namespace")
      case None
      then have "\<And>rs. (namespace, rs) \<notin> set grp"
        by (metis dg map_of_eq_Some_iff option.distinct(1))
      with False None m g show ?thesis
        unfolding look by (simp add: GetMetricsBySelector_def)
    next
      case (Some rs)
      with dg have "\<And>rs'. (namespace, rs') \<in> set grp \<longleftrightarrow> rs' = rs"
        by (metis map_of_eq_Some_iff option.inject)
      with False Some m g show ?thesis
        unfolding look by (simp add: GetMetricsBySelector_def set_matchedIn)
    qed
  qed
qed

lemma wellFormed_twoNamespaces: "wellFormed twoNamespaces"
  by (simp add: wellFormed_def wfGroups_def wfNamespaces_def distinctKeys_def twoNamespaces_def)

theorem GetMetricsBySelector_scoping_witness:
  "wellFormed twoNamespaces \<and>
   knownGroup twoNamespaces ''requests-per-second'' \<lparr>Group = '''', Resource = ''pods''\<rparr> \<and>
   \<not> knownGroup twoNamespaces ''queue-length'' \<lparr>Group = '''', Resource = ''pods''\<rparr> \<and>
   GetMetricsBySelector twoNamespaces ''queue-length'' \<lparr>Group = '''', Resource = ''pods''\<rparr>
     '''' (equalsSelector ''app'' ''x'') = None \<and>
   (\<exists>items. GetMetricsBySelector twoNamespaces ''requests-per-second''
              \<lparr>Group = '''', Resource = ''pods''\<rparr> '''' (equalsSelector ''app'' ''x'') = Some items \<and>
            set items =
              {cm_Value e | ns name e.
                 lookupEntry twoNamespaces
                   (''requests-per-second'', \<lparr>Group = '''', Resource = ''pods''\<rparr>, ns, name) = Some e \<and>
                 equalsSelector ''app'' ''x'' (cm_Labels e)}) \<and>
   GetMetricsBySelector twoNamespaces ''requests-per-second'' \<lparr>Group = '''', Resource = ''pods''\<rparr>
     '''' (equalsSelector ''app'' ''x'')
     = Some [Custom (podMetric ''requests-per-second'' ''ns1'' ''pod-a'' 42 [(''app'', ''x'')]),
             Custom (podMetric ''requests-per-second'' ''ns2'' ''pod-c'' 5 [(''app'', ''x'')])] \<and>
   GetMetricsBySelector twoNamespaces ''requests-per-second'' \<lparr>Group = '''', Resource = ''pods''\<rparr>
     ''ns1'' (equalsSelector ''app'' ''x'')
     = Some [Custom (podMetric ''requests-per-second'' ''ns1'' ''pod-a'' 42 [(''app'', ''x'')])] \<and>
   GetMetricsBySelector twoNamespaces ''requests-per-second'' \<lparr>Group = '''', Resource = ''pods''\<rparr>
     ''ns3'' (equalsSelector ''app'' ''x'') = Some []"
proof -
  let ?g = "\<lparr>Group = '''', Resource = ''pods''\<rparr>"
  have k: "knownGroup twoNamespaces ''requests-per-second'' ?g"
    by (simp add: knownGroup_def twoNamespaces_def)
  have u: "\<not> knownGroup twoNamespaces ''queue-length'' ?g"
    by (simp add: knownGroup_def twoNamespaces_def)
  have e: "GetMetricsBySelector twoNamespaces ''requests-per-second'' ?g
     '''' (equalsSelector ''app'' ''x'')
     = Some [Custom (podMetric ''requests-per-second'' ''ns1'' ''pod-a'' 42 [(''app'', ''x'')]),
             Custom (podMetric ''requests-per-second'' ''ns2'' ''pod-c'' 5 [(''app'', ''x'')])] \<and>
   GetMetricsBySelector twoNamespaces ''requests-per-second'' ?g
     ''ns1'' (equalsSelector ''app'' ''x'')
     = Some [Custom (podMetric ''requests-per-second'' ''ns1'' ''pod-a'' 42 [(''app'', ''x'')])] \<and>
   GetMetricsBySelector twoNamespaces ''requests-per-second'' ?g
     ''ns3'' (equalsSelector ''app'' ''x'') = Some []"
    by (simp add: GetMetricsBySelector_def twoNamespaces_def matchedIn_def storedPod_def
        equalsSelector_def)
  from GetMetricsBySelector_scoping[OF wellFormed_twoNamespaces,
      of "''queue-length''" ?g "''''" "equalsSelector ''app'' ''x''"] u
  have n: "GetMetricsBySelector twoNamespaces ''queue-length'' ?g
     '''' (equalsSelector ''app'' ''x'') = None" by blast
  from GetMetricsBySelector_scoping[OF wellFormed_twoNamespaces,
      of "''requests-per-second''" ?g "''''" "equalsSelector ''app'' ''x''"] k
  have a: "\<exists>items. GetMetricsBySelector twoNamespaces ''requests-per-second'' ?g ''''
              (equalsSelector ''app'' ''x'') = Some items \<and>
            set items =
              {cm_Value e | ns name e.
                 lookupEntry twoNamespaces (''requests-per-second'', ?g, ns, name) = Some e \<and>
                 equalsSelector ''app'' ''x'' (cm_Labels e)}"
    by simp
  from wellFormed_twoNamespaces k u n a e show ?thesis by blast
qed

section \<open>External metrics and their labels\<close>







section \<open>The ZMON collector\<close>

text \<open>
  C10. For every ZMON collector that \<^verbatim>\<open>NewZMONCollector\<close> constructs, \<^verbatim>\<open>GetMetrics\<close>
  succeeds and returns exactly one metric: its external value has the quantity 0, the
  configured metric name and label map, and the time of the call as timestamp. The
  result does not depend on the check id, the query or the endpoint of the collector:
  no backend is asked.
\<close>

theorem ZMONCollector_GetMetrics_zero:
  assumes "NewZMONCollector endpoint tokenSource cfg interval = Inr c"
  shows "ZMONCollector_GetMetrics now c =
           Inr [\<lparr>Type = cfg_Type cfg, Custom = zeroMetricValue,
                  External = \<lparr>ext_MetricName = cfg_Name cfg, MetricLabels = cfg_Labels cfg,
                              ext_Timestamp = now, ext_Value = 0\<rparr>,
                  Labels = []\<rparr>] \<and>
         ZMONCollector_GetMetrics now (c\<lparr>zmon_endpoint := endpoint', checkID := checkID',
                                         query := query'\<rparr>)
           = ZMONCollector_GetMetrics now c"
  using assms
  by (auto simp: NewZMONCollector_def ZMONCollector_GetMetrics_def NewQuantity_def Let_def
      split: option.splits)

theorem ZMONCollector_GetMetrics_zero_witness:
  "NewZMONCollector ''https://zmon.example.org'' ''zmon'' zmonConfig 60000000000
     = Inr \<lparr>zmon_endpoint = ''https://zmon.example.org'', zmon_tokenSource = ''zmon'',
            zmon_interval = 60000000000, checkID = ''1234'', query = ''avg'',
            zmon_labels = [(''check-id'', ''1234''), (''query'', ''avg'')],
            zmon_metricName = ''zmon-check'', zmon_metricType = ExternalMetricSourceType\<rparr> \<and>
   ZMONCollector_GetMetrics 77
       \<lparr>zmon_endpoint = ''https://zmon.example.org'', zmon_tokenSource = ''zmon'',
        zmon_interval = 60000000000, checkID = ''1234'', query = ''avg'',
        zmon_labels = [(''check-id'', ''1234''), (''query'', ''avg'')],
        zmon_metricName = ''zmon-check'', zmon_metricType = ExternalMetricSourceType\<rparr>
     = Inr [\<lparr>Type = ExternalMetricSourceType, Custom = zeroMetricValue,
             External = \<lparr>ext_MetricName = ''zmon-check'',
                         MetricLabels = [(''check-id'', ''1234''), (''query'', ''avg'')],
                         ext_Timestamp = 77, ext_Value = 0\<rparr>,
             Labels = []\<rparr>]"
proof -
  have n: "NewZMONCollector ''https://zmon.example.org'' ''zmon'' zmonConfig 60000000000
     = Inr \<lparr>zmon_endpoint = ''https://zmon.example.org'', zmon_tokenSource = ''zmon'',
            zmon_interval = 60000000000, checkID = ''1234'', query = ''avg'',
            zmon_labels = [(''check-id'', ''1234''), (''query'', ''avg'')],
            zmon_metricName = ''zmon-check'', zmon_metricType = ExternalMetricSourceType\<rparr>"
    by (simp add: NewZMONCollector_def zmonConfig_def zmonCheckIDLabelKey_def
        zmonQueryLabelKey_def)
  have c: "cfg_Type zmonConfig = ExternalMetricSourceType" "cfg_Name zmonConfig = ''zmon-check''"
    "cfg_Labels zmonConfig = [(''check-id'', ''1234''), (''query'', ''avg'')]"
    by (simp_all add: zmonConfig_def)
  from ZMONCollector_GetMetrics_zero[OF n, of 77] n show ?thesis
    unfolding c by blast
qed

section \<open>The skipper collector\<close>

lemma collectorsForRules_all:
  assumes "\<forall>rule \<in> set rules.
             pluginNewCollector w (hpa c) (hostConfig c (Host rule)) (skipper_interval c)
               = Inr (built rule)"
    and "\<forall>q p. cfg\<lparr>cfg_Config := q, PerReplica := p\<rparr> = (config c)\<lparr>cfg_Config := q, PerReplica := p\<rparr>"
  shows "collectorsForRules w c cfg collectors rules = Inr (collectors @ map built rules)"
  using assms
proof (induction rules arbitrary: cfg collectors)
  case Nil
  then show ?case by simp
next
  case (Cons rule rules)
  let ?cfg' = "cfg\<lparr>cfg_Config := [(''query'', rpsQuery (replaceDots (Host rule)))],
                   PerReplica := False\<rparr>"
  from Cons.prems(2) have eq: "?cfg' = hostConfig c (Host rule)"
    by (simp add: hostConfig_def)
  with Cons.prems(1)
  have p: "pluginNewCollector w (hpa c) ?cfg' (skipper_interval c) = Inr (built rule)" by simp
  have inv: "\<forall>q p. ?cfg'\<lparr>cfg_Config := q, PerReplica := p\<rparr>
      = (config c)\<lparr>cfg_Config := q, PerReplica := p\<rparr>"
    using Cons.prems(2) by simp
  from Cons.prems(1) have rest: "\<forall>rule \<in> set rules.
      pluginNewCollector w (hpa c) (hostConfig c (Host rule)) (skipper_interval c)
        = Inr (built rule)" by simp
  from Cons.IH[OF rest inv, of "collectors @ [built rule]"] p show ?case
    by (simp add: Let_def)
qed

lemma replaceDots_no_dot: "CHR ''.'' \<notin> set (replaceDots host)"
  by (auto simp: replaceDots_def)

text \<open>
  C8. Fan-out of the skipper collector over the hosts of the ingress. For an ingress
  with N rules, where the delegate plugin builds a collector for each host,
  \<^verbatim>\<open>getCollector\<close> asks the plugin once per rule, with the configuration \<open>hostConfig\<close>:
  the collector's own configuration in which \<^verbatim>\<open>PerReplica\<close> is false and the one entry
  of \<^verbatim>\<open>Config\<close> is the query
  \<^verbatim>\<open>scalar(sum(rate(skipper_serve_host_duration_seconds_count{host="H"}[1m])))\<close>, where
  \<^verbatim>\<open>H\<close> is the host of the rule with every dot replaced by an underscore. With N > 1
  the result is the maximum-of collector over the N delegates in the order of the
  rules, with N = 1 it is the one delegate, with N = 0 it is the error that no hosts
  are defined.
\<close>

theorem getCollector_fan_out:
  assumes "getIngress w (Namespace (objectReference c)) (Name (objectReference c)) = Inr ingress"
    and "\<forall>rule \<in> set (Rules ingress).
           pluginNewCollector w (hpa c) (hostConfig c (Host rule)) (skipper_interval c)
             = Inr (built rule)"
  shows "getCollector w c =
           (if length (Rules ingress) > 1
            then Inr (MaxCollector (skipper_interval c) (map built (Rules ingress)))
            else if length (Rules ingress) = 1 then Inr (Plugged (built (Rules ingress ! 0)))
            else Inl (Errorf (''no hosts defined on ingress '' @ Namespace (objectReference c)
                                @ ''/'' @ Name (objectReference c)
                                @ '', unable to create collector''))) \<and>
         (\<forall>host.
            hostConfig c host =
              (config c)\<lparr>cfg_Config :=
                  [(''query'',
                    ''scalar(sum(rate(skipper_serve_host_duration_seconds_count{host=''
                      @ [CHR 0x22] @ replaceDots host @ [CHR 0x22] @ ''}[1m])))'')],
                PerReplica := False\<rparr> \<and>
            PerReplica (hostConfig c host) = False \<and>
            cfg_Config (hostConfig c host) =
              [(''query'',
                ''scalar(sum(rate(skipper_serve_host_duration_seconds_count{host=''
                  @ [CHR 0x22] @ replaceDots host @ [CHR 0x22] @ ''}[1m])))'')] \<and>
            rpsQuery (replaceDots host) =
              ''scalar(sum(rate(skipper_serve_host_duration_seconds_count{host=''
                @ [CHR 0x22] @ replaceDots host @ [CHR 0x22] @ ''}[1m])))'' \<and>
            CHR ''.'' \<notin> set (replaceDots host) \<and>
            length (replaceDots host) = length host \<and>
            replaceDots host = map (\<lambda>ch. if ch = CHR ''.'' then CHR ''_'' else ch) host)"
proof (intro conjI allI)
  have all: "collectorsForRules w c (config c) [] (Rules ingress) = Inr (map built (Rules ingress))"
    using collectorsForRules_all[of "Rules ingress" w c built "config c" "[]"] assms(2) by simp
  show "getCollector w c =
           (if length (Rules ingress) > 1
            then Inr (MaxCollector (skipper_interval c) (map built (Rules ingress)))
            else if length (Rules ingress) = 1 then Inr (Plugged (built (Rules ingress ! 0)))
            else Inl (Errorf (''no hosts defined on ingress '' @ Namespace (objectReference c)
                                @ ''/'' @ Name (objectReference c)
                                @ '', unable to create collector'')))"
    by (simp add: getCollector_def NewMaxCollector_def assms(1) all)
next
  fix host
  show "hostConfig c host =
          (config c)\<lparr>cfg_Config :=
              [(''query'',
                ''scalar(sum(rate(skipper_serve_host_duration_seconds_count{host=''
                  @ [CHR 0x22] @ replaceDots host @ [CHR 0x22] @ ''}[1m])))'')],
            PerReplica := False\<rparr>"
    by (simp add: hostConfig_def rpsQuery_def)
  show "PerReplica (hostConfig c host) = False" by (simp add: hostConfig_def)
  show "cfg_Config (hostConfig c host) =
          [(''query'',
            ''scalar(sum(rate(skipper_serve_host_duration_seconds_count{host=''
              @ [CHR 0x22] @ replaceDots host @ [CHR 0x22] @ ''}[1m])))'')]"
    by (simp add: hostConfig_def rpsQuery_def)
  show "rpsQuery (replaceDots host) =
          ''scalar(sum(rate(skipper_serve_host_duration_seconds_count{host=''
            @ [CHR 0x22] @ replaceDots host @ [CHR 0x22] @ ''}[1m])))''"
    by (simp add: rpsQuery_def)
  show "CHR ''.'' \<notin> set (replaceDots host)" by (rule replaceDots_no_dot)
  show "length (replaceDots host) = length host" by (simp add: replaceDots_def)
  show "replaceDots host = map (\<lambda>ch. if ch = CHR ''.'' then CHR ''_'' else ch) host"
    by (simp add: replaceDots_def)
qed

text \<open>
  An instance: the ingress \<^verbatim>\<open>ns1/web\<close> has the hosts \<^verbatim>\<open>www.example.org\<close> and
  \<^verbatim>\<open>api.example.org\<close>, and the delegate plugin hands back the configuration it is
  given. The two configurations that reach the plugin hold the queries for
  \<^verbatim>\<open>www_example_org\<close> and \<^verbatim>\<open>api_example_org\<close>, with \<^verbatim>\<open>PerReplica\<close> false where the
  collector's own configuration has it true.
\<close>

theorem getCollector_fan_out_witness:
  "getIngress (exampleWorld 3) (Namespace (objectReference (exampleSkipper ''Deployment'')))
       (Name (objectReference (exampleSkipper ''Deployment'')))
     = Inr \<lparr>Rules = [\<lparr>Host = ''www.example.org''\<rparr>, \<lparr>Host = ''api.example.org''\<rparr>]\<rparr> \<and>
   pluginNewCollector (exampleWorld 3) (hpa (exampleSkipper ''Deployment''))
       (hostConfig (exampleSkipper ''Deployment'') ''www.example.org'')
       (skipper_interval (exampleSkipper ''Deployment''))
     = Inr (hostConfig (exampleSkipper ''Deployment'') ''www.example.org'') \<and>
   pluginNewCollector (exampleWorld 3) (hpa (exampleSkipper ''Deployment''))
       (hostConfig (exampleSkipper ''Deployment'') ''api.example.org'')
       (skipper_interval (exampleSkipper ''Deployment''))
     = Inr (hostConfig (exampleSkipper ''Deployment'') ''api.example.org'') \<and>
   getCollector (exampleWorld 3) (exampleSkipper ''Deployment'')
     = Inr (MaxCollector 60000000000
              [\<lparr>cfg_Name = ''requests-per-second'', cfg_Type = ObjectMetricSourceType,
                cfg_ObjectReference = \<lparr>Kind = ''Ingress'', Namespace = ''ns1'', Name = ''web''\<rparr>,
                cfg_Config =
                  [(''query'',
                    ''scalar(sum(rate(skipper_serve_host_duration_seconds_count{host=''
                      @ [CHR 0x22] @ ''www_example_org'' @ [CHR 0x22] @ ''}[1m])))'')],
                cfg_Labels = [], PerReplica = False\<rparr>,
               \<lparr>cfg_Name = ''requests-per-second'', cfg_Type = ObjectMetricSourceType,
                cfg_ObjectReference = \<lparr>Kind = ''Ingress'', Namespace = ''ns1'', Name = ''web''\<rparr>,
                cfg_Config =
                  [(''query'',
                    ''scalar(sum(rate(skipper_serve_host_duration_seconds_count{host=''
                      @ [CHR 0x22] @ ''api_example_org'' @ [CHR 0x22] @ ''}[1m])))'')],
                cfg_Labels = [], PerReplica = False\<rparr>]) \<and>
   PerReplica (config (exampleSkipper ''Deployment'')) = True \<and>
   PerReplica (hostConfig (exampleSkipper ''Deployment'') ''www.example.org'') = False \<and>
   cfg_Config (hostConfig (exampleSkipper ''Deployment'') ''www.example.org'')
     = [(''query'',
         ''scalar(sum(rate(skipper_serve_host_duration_seconds_count{host=''
           @ [CHR 0x22] @ ''www_example_org'' @ [CHR 0x22] @ ''}[1m])))'')] \<and>
   rpsQuery ''www_example_org''
     = ''scalar(sum(rate(skipper_serve_host_duration_seconds_count{host=''
         @ [CHR 0x22] @ ''www_example_org'' @ [CHR 0x22] @ ''}[1m])))'' \<and>
   replaceDots ''www.example.org'' = ''www_example_org''"
proof -
  let ?w = "exampleWorld 3"
  let ?c = "exampleSkipper ''Deployment''"
  let ?ingress = "\<lparr>Rules = [\<lparr>Host = ''www.example.org''\<rparr>, \<lparr>Host = ''api.example.org''\<rparr>]\<rparr>"
  have i: "getIngress ?w (Namespace (objectReference ?c)) (Name (objectReference ?c)) = Inr ?ingress"
    by (simp add: exampleWorld_def)
  have p: "pluginNewCollector ?w (hpa ?c) (hostConfig ?c host) (skipper_interval ?c)
      = Inr (hostConfig ?c host)" for host
    by (simp add: exampleWorld_def)
  then have all: "\<forall>rule \<in> set (Rules ?ingress).
      pluginNewCollector ?w (hpa ?c) (hostConfig ?c (Host rule)) (skipper_interval ?c)
        = Inr ((\<lambda>rule. hostConfig ?c (Host rule)) rule)"
    by simp
  have r: "replaceDots ''www.example.org'' = ''www_example_org''"
    "replaceDots ''api.example.org'' = ''api_example_org''"
    by (simp_all add: replaceDots_def)
  have t: "skipper_interval ?c = 60000000000" "PerReplica (config ?c) = True"
    by (simp_all add: exampleSkipper_def)
  have cfg: "config ?c =
      \<lparr>cfg_Name = ''requests-per-second'', cfg_Type = ObjectMetricSourceType,
       cfg_ObjectReference = \<lparr>Kind = ''Ingress'', Namespace = ''ns1'', Name = ''web''\<rparr>,
       cfg_Config = [], cfg_Labels = [], PerReplica = True\<rparr>"
    by (simp add: exampleSkipper_def)
  note fan = getCollector_fan_out[OF i all]
  from fan have g: "getCollector ?w ?c
      = Inr (MaxCollector 60000000000
               [hostConfig ?c ''www.example.org'', hostConfig ?c ''api.example.org''])"
    by (simp add: t)
  from fan have h: "hostConfig ?c host =
      (config ?c)\<lparr>cfg_Config :=
          [(''query'',
            ''scalar(sum(rate(skipper_serve_host_duration_seconds_count{host=''
              @ [CHR 0x22] @ replaceDots host @ [CHR 0x22] @ ''}[1m])))'')],
        PerReplica := False\<rparr>" for host
    by blast
  from fan have q: "rpsQuery (replaceDots ''www.example.org'') =
      ''scalar(sum(rate(skipper_serve_host_duration_seconds_count{host=''
        @ [CHR 0x22] @ replaceDots ''www.example.org'' @ [CHR 0x22] @ ''}[1m])))''"
    by blast
  have g': "getCollector ?w ?c
     = Inr (MaxCollector 60000000000
              [\<lparr>cfg_Name = ''requests-per-second'', cfg_Type = ObjectMetricSourceType,
                cfg_ObjectReference = \<lparr>Kind = ''Ingress'', Namespace = ''ns1'', Name = ''web''\<rparr>,
                cfg_Config =
                  [(''query'',
                    ''scalar(sum(rate(skipper_serve_host_duration_seconds_count{host=''
                      @ [CHR 0x22] @ ''www_example_org'' @ [CHR 0x22] @ ''}[1m])))'')],
                cfg_Labels = [], PerReplica = False\<rparr>,
               \<lparr>cfg_Name = ''requests-per-second'', cfg_Type = ObjectMetricSourceType,
                cfg_ObjectReference = \<lparr>Kind = ''Ingress'', Namespace = ''ns1'', Name = ''web''\<rparr>,
                cfg_Config =
                  [(''query'',
                    ''scalar(sum(rate(skipper_serve_host_duration_seconds_count{host=''
                      @ [CHR 0x22] @ ''api_example_org'' @ [CHR 0x22] @ ''}[1m])))'')],
                cfg_Labels = [], PerReplica = False\<rparr>])"
    unfolding g h r cfg by simp
  have pr: "PerReplica (hostConfig ?c ''www.example.org'') = False"
    unfolding h by simp
  have cc: "cfg_Config (hostConfig ?c ''www.example.org'')
     = [(''query'',
         ''scalar(sum(rate(skipper_serve_host_duration_seconds_count{host=''
           @ [CHR 0x22] @ ''www_example_org'' @ [CHR 0x22] @ ''}[1m])))'')]"
    unfolding h r by simp
  from q have q': "rpsQuery ''www_example_org''
     = ''scalar(sum(rate(skipper_serve_host_duration_seconds_count{host=''
         @ [CHR 0x22] @ ''www_example_org'' @ [CHR 0x22] @ ''}[1m])))''"
    unfolding r .
  from i p[of "''www.example.org''"] p[of "''api.example.org''"] g' t(2) pr cc q' r(1)
  show ?thesis by (intro conjI)
qed

section \<open>The maximum-of combinator\<close>

lemma collectAll_all:
  assumes "\<forall>d \<in> set delegates. get d = Inr (results d)"
  shows "collectAll get delegates = Inr (concat (map results delegates))"
  using assms by (induction delegates) simp_all

lemma collectAll_first_error:
  assumes "\<forall>d \<in> set pre. get d = Inr (results d)" and "get d = Inl err"
  shows "collectAll get (pre @ d # post) = Inl err"
  using assms by (induction pre) simp_all

lemma firstMaximum_split:
  "\<exists>pre m post. best # vs = pre @ m # post \<and> firstMaximum best vs = m \<and>
     (\<forall>x \<in> set pre. quantityOf x < quantityOf m) \<and>
     (\<forall>x \<in> set post. quantityOf x \<le> quantityOf m)"
proof (induction vs arbitrary: best)
  case Nil
  have "[best] = [] @ best # []" by simp
  then show ?case by fastforce
next
  case (Cons v vs)
  show ?case
  proof (cases "quantityOf best < quantityOf v")
    case True
    from Cons.IH[of v] obtain pre m post where s: "v # vs = pre @ m # post"
      "firstMaximum v vs = m" "\<forall>x \<in> set pre. quantityOf x < quantityOf m"
      "\<forall>x \<in> set post. quantityOf x \<le> quantityOf m" by blast
    have "quantityOf v \<le> quantityOf m"
    proof (cases pre)
      case Nil
      with s(1) show ?thesis by simp
    next
      case (Cons p ps)
      with s(1) have "v \<in> set pre" by simp
      with s(3) show ?thesis by force
    qed
    with True have "quantityOf best < quantityOf m" by simp
    then have b: "\<forall>x \<in> set (best # pre). quantityOf x < quantityOf m" using s(3) by simp
    have f: "firstMaximum best (v # vs) = m" using True s(2) by simp
    have l: "best # v # vs = (best # pre) @ m # post" using s(1) by simp
    from l f b s(4) show ?thesis by blast
  next
    case False
    from Cons.IH[of best] obtain pre m post where s: "best # vs = pre @ m # post"
      "firstMaximum best vs = m" "\<forall>x \<in> set pre. quantityOf x < quantityOf m"
      "\<forall>x \<in> set post. quantityOf x \<le> quantityOf m" by blast
    show ?thesis
    proof (cases pre)
      case Nil
      with s(1) have "m = best" "post = vs" by simp_all
      have f: "firstMaximum best (v # vs) = m" using False s(2) by simp
      have l: "best # v # vs = [] @ m # (v # vs)" using \<open>m = best\<close> by simp
      have a: "\<forall>x \<in> set (v # vs). quantityOf x \<le> quantityOf m"
        using s(4) False \<open>m = best\<close> \<open>post = vs\<close> by auto
      have b: "\<forall>x \<in> set []. quantityOf x < quantityOf m" by simp
      from l f b a show ?thesis by blast
    next
      case (Cons p ps)
      with s(1) have p: "p = best" "vs = ps @ m # post" by simp_all
      with s(3) Cons have "quantityOf best < quantityOf m" by simp
      with False have "quantityOf v < quantityOf m" by simp
      with s(3) Cons p(1)
      have b: "\<forall>x \<in> set (best # v # ps). quantityOf x < quantityOf m" by simp
      have f: "firstMaximum best (v # vs) = m" using False s(2) by simp
      have l: "best # v # vs = (best # v # ps) @ m # post" using p(2) by simp
      from l f b s(4) show ?thesis by blast
    qed
  qed
qed

text \<open>
  C9. The maximum-of combinator, as the specification words it. With no delegate
  configured \<^verbatim>\<open>GetMetrics\<close> fails. If a delegate fails and the delegates before it
  succeeded, its error is the result, whatever the others return. If all delegates
  succeed, the values they return are taken in delegate order: with no value at all
  \<^verbatim>\<open>GetMetrics\<close> fails; otherwise it returns exactly one of them, whose quantity is
  greater than the quantity of every value before it and not less than the quantity of
  any value after it, that is the first maximum.
\<close>

theorem MaxCollector_GetMetrics_maximum:
  "(MaxCollector_GetMetrics get [] = Inl (Errorf ''no collectors configured'')) \<and>
   ((\<forall>d \<in> set pre. get d = Inr (results d)) \<and> get d = Inl err \<longrightarrow>
      MaxCollector_GetMetrics get (pre @ d # post) = Inl err) \<and>
   (delegates \<noteq> [] \<and> (\<forall>d \<in> set delegates. get d = Inr (results d)) \<longrightarrow>
      (concat (map results delegates) = [] \<longrightarrow>
         MaxCollector_GetMetrics get delegates = Inl (Errorf ''no metric values returned'')) \<and>
      (concat (map results delegates) \<noteq> [] \<longrightarrow>
         (\<exists>before m after.
            concat (map results delegates) = before @ m # after \<and>
            MaxCollector_GetMetrics get delegates = Inr [m] \<and>
            (\<forall>x \<in> set before. quantityOf x < quantityOf m) \<and>
            (\<forall>x \<in> set after. quantityOf x \<le> quantityOf m))))"
proof (intro conjI impI)
  show "MaxCollector_GetMetrics get [] = Inl (Errorf ''no collectors configured'')"
    by (simp add: MaxCollector_GetMetrics_def)
next
  assume "(\<forall>d \<in> set pre. get d = Inr (results d)) \<and> get d = Inl err"
  then have "collectAll get (pre @ d # post) = Inl err"
    using collectAll_first_error[of pre get results d err post] by simp
  then show "MaxCollector_GetMetrics get (pre @ d # post) = Inl err"
    by (simp add: MaxCollector_GetMetrics_def)
next
  assume a: "delegates \<noteq> [] \<and> (\<forall>d \<in> set delegates. get d = Inr (results d))"
  then have c: "collectAll get delegates = Inr (concat (map results delegates))"
    using collectAll_all[of delegates get results] by simp
  {
    assume "concat (map results delegates) = []"
    with a c show "MaxCollector_GetMetrics get delegates = Inl (Errorf ''no metric values returned'')"
      by (simp add: MaxCollector_GetMetrics_def)
  }
  {
    assume "concat (map results delegates) \<noteq> []"
    then obtain v vs where v: "concat (map results delegates) = v # vs"
      by (cases "concat (map results delegates)") auto
    from firstMaximum_split[of v vs] obtain before m after where
      "v # vs = before @ m # after" "firstMaximum v vs = m"
      "\<forall>x \<in> set before. quantityOf x < quantityOf m"
      "\<forall>x \<in> set after. quantityOf x \<le> quantityOf m" by blast
    moreover from a c v have "MaxCollector_GetMetrics get delegates = Inr [firstMaximum v vs]"
      by (simp add: MaxCollector_GetMetrics_def)
    ultimately show "\<exists>before m after.
            concat (map results delegates) = before @ m # after \<and>
            MaxCollector_GetMetrics get delegates = Inr [m] \<and>
            (\<forall>x \<in> set before. quantityOf x < quantityOf m) \<and>
            (\<forall>x \<in> set after. quantityOf x \<le> quantityOf m)"
      using v by auto
  }
qed

theorem MaxCollector_GetMetrics_maximum_witness:
  "list_all (\<lambda>d. exampleDelegate (\<lambda>d. if d = ''b'' then 7 else if d = ''a'' then 3 else 5) d
                  = Inr [podMetric ''requests-per-second'' ''ns1'' d
                           (if d = ''b'' then 7 else if d = ''a'' then 3 else 5) []])
     [''a'', ''b'', ''c''] \<and>
   MaxCollector_GetMetrics
       (exampleDelegate (\<lambda>d. if d = ''b'' then 7 else if d = ''a'' then 3 else 5))
       [''a'', ''b'', ''c'']
     = Inr [podMetric ''requests-per-second'' ''ns1'' ''b'' 7 []] \<and>
   MaxCollector_GetMetrics
       (exampleDelegate (\<lambda>d. if d = ''c'' then 3 else 7)) [''a'', ''b'', ''c'']
     = Inr [podMetric ''requests-per-second'' ''ns1'' ''a'' 7 []] \<and>
   exampleDelegate (\<lambda>d. 7) ''down'' = Inl (Errorf ''connection refused'') \<and>
   MaxCollector_GetMetrics (exampleDelegate (\<lambda>d. 7)) ([''a''] @ ''down'' # [''c''])
     = Inl (Errorf ''connection refused'') \<and>
   (\<exists>before m after.
      concat (map (\<lambda>d. [podMetric ''requests-per-second'' ''ns1'' d
                           (if d = ''b'' then 7 else if d = ''a'' then 3 else 5) []])
                [''a'', ''b'', ''c''])
        = before @ m # after \<and>
      MaxCollector_GetMetrics
          (exampleDelegate (\<lambda>d. if d = ''b'' then 7 else if d = ''a'' then 3 else 5))
          [''a'', ''b'', ''c'']
        = Inr [m] \<and>
      list_all (\<lambda>x. quantityOf x < quantityOf m) before \<and>
      list_all (\<lambda>x. quantityOf x \<le> quantityOf m) after)"
proof -
  let ?q = "\<lambda>d. if d = ''b'' then 7 else if d = ''a'' then (3::int64) else 5"
  let ?results = "\<lambda>d. [podMetric ''requests-per-second'' ''ns1'' d (?q d) []]"
  have ok: "\<forall>d \<in> set [''a'', ''b'', ''c'']. exampleDelegate ?q d = Inr (?results d)"
    by (simp add: exampleDelegate_def)
  have down: "exampleDelegate (\<lambda>d. 7) ''down'' = Inl (Errorf ''connection refused'')"
    by (simp add: exampleDelegate_def)
  have pre: "\<forall>d \<in> set [''a''].
      exampleDelegate (\<lambda>d. 7) d = Inr [podMetric ''requests-per-second'' ''ns1'' d 7 []]"
    by (simp add: exampleDelegate_def)
  have e: "MaxCollector_GetMetrics (exampleDelegate ?q) [''a'', ''b'', ''c'']
       = Inr [podMetric ''requests-per-second'' ''ns1'' ''b'' 7 []] \<and>
     MaxCollector_GetMetrics (exampleDelegate (\<lambda>d. if d = ''c'' then 3 else 7))
         [''a'', ''b'', ''c'']
       = Inr [podMetric ''requests-per-second'' ''ns1'' ''a'' 7 []]"
    by (simp add: MaxCollector_GetMetrics_def exampleDelegate_def quantityOf_def MilliValue_def
        podMetric_def)
  from MaxCollector_GetMetrics_maximum[where get = "exampleDelegate (\<lambda>d. 7)"
      and pre = "[''a'']" and d = "''down''" and err = "Errorf ''connection refused''"
      and post = "[''c'']"
      and results = "\<lambda>d. [podMetric ''requests-per-second'' ''ns1'' d 7 []]"] pre down
  have err: "MaxCollector_GetMetrics (exampleDelegate (\<lambda>d. 7)) ([''a''] @ ''down'' # [''c''])
     = Inl (Errorf ''connection refused'')"
    by blast
  have ne: "concat (map ?results [''a'', ''b'', ''c'']) \<noteq> []" by simp
  from MaxCollector_GetMetrics_maximum[where get = "exampleDelegate ?q"
      and delegates = "[''a'', ''b'', ''c'']" and results = ?results] ok ne
  have "\<exists>before m after.
      concat (map ?results [''a'', ''b'', ''c'']) = before @ m # after \<and>
      MaxCollector_GetMetrics (exampleDelegate ?q) [''a'', ''b'', ''c''] = Inr [m] \<and>
      (\<forall>x \<in> set before. quantityOf x < quantityOf m) \<and>
      (\<forall>x \<in> set after. quantityOf x \<le> quantityOf m)"
    by blast
  then have ex: "\<exists>before m after.
      concat (map ?results [''a'', ''b'', ''c'']) = before @ m # after \<and>
      MaxCollector_GetMetrics (exampleDelegate ?q) [''a'', ''b'', ''c''] = Inr [m] \<and>
      list_all (\<lambda>x. quantityOf x < quantityOf m) before \<and>
      list_all (\<lambda>x. quantityOf x \<le> quantityOf m) after"
    unfolding list_all_iff .
  have la: "list_all (\<lambda>d. exampleDelegate ?q d = Inr (?results d)) [''a'', ''b'', ''c'']"
    using ok unfolding list_all_iff .
  from la e down err ex show ?thesis by blast
qed

section \<open>The per-replica average\<close>



lemma targetRefReplicas_unsupported:
  assumes "ScaleTargetRef_Kind h \<noteq> ''Deployment''" and "ScaleTargetRef_Kind h \<noteq> ''StatefulSet''"
  shows "targetRefReplicas w h = Inr 0"
  using assms by (simp add: targetRefReplicas_def)




end
